theory Spec2Isabelle
  imports Complex_Main
begin

section \<open>Strings of the program\<close>

text \<open>
  A string of the program is a sequence of UTF-16 code units; a code unit is modelled as a
  natural number (below 65536 in every string the program can hold). String constants of
  the source are written as their code units, with the code points in the comment.
\<close>

type_synonym jstring = "nat list"

definition isWhiteSpace :: "nat \<Rightarrow> bool" where
  \<comment> \<open>the set behind \<open>\s\<close> and \<open>trim\<close>: TAB, LF, VT, FF, CR, space, U+00A0, U+1680,
      U+2000..U+200A, U+2028, U+2029, U+202F, U+205F, U+3000, U+FEFF\<close>
  "isWhiteSpace c \<longleftrightarrow>
     c = 9 \<or> c = 10 \<or> c = 11 \<or> c = 12 \<or> c = 13 \<or> c = 32 \<or> c = 160 \<or> c = 5760 \<or>
     (8192 \<le> c \<and> c \<le> 8202) \<or> c = 8232 \<or> c = 8233 \<or> c = 8239 \<or> c = 8287 \<or>
     c = 12288 \<or> c = 65279"

definition isLineTerminator :: "nat \<Rightarrow> bool" where
  "isLineTerminator c \<longleftrightarrow> c = 10 \<or> c = 13 \<or> c = 8232 \<or> c = 8233"

definition trimStart :: "jstring \<Rightarrow> jstring" where
  "trimStart s = dropWhile isWhiteSpace s"

definition trimEnd :: "jstring \<Rightarrow> jstring" where
  "trimEnd s = rev (dropWhile isWhiteSpace (rev s))"

definition trim :: "jstring \<Rightarrow> jstring" where
  "trim s = trimEnd (trimStart s)"

text \<open>\<open>s.split("\n")\<close>: the pieces between the separators; the empty string gives one
  empty piece.\<close>

fun split_on :: "nat \<Rightarrow> jstring \<Rightarrow> jstring list" where
  "split_on c [] = [[]]"
| "split_on c (x # xs) =
     (if x = c then [] # split_on c xs
      else (case split_on c xs of [] \<Rightarrow> [[x]] | p # ps \<Rightarrow> (x # p) # ps))"

text \<open>\<open>xs.join(sep)\<close>\<close>

fun join :: "jstring \<Rightarrow> jstring list \<Rightarrow> jstring" where
  "join sep [] = []"
| "join sep [x] = x"
| "join sep (x # y # ys) = x @ sep @ join sep (y # ys)"

text \<open>\<open>s.includes(t)\<close>\<close>

fun str_includes :: "jstring \<Rightarrow> jstring \<Rightarrow> bool" where
  "str_includes [] t = (t = [])"
| "str_includes (x # xs) t = (take (length t) (x # xs) = t \<or> str_includes xs t)"

section \<open>Regular expressions\<close>

text \<open>
  The regular expressions of the source are written in a small syntax and run by a
  backtracking matcher with the priorities of the language: \<open>rmatch r st\<close> lists every way
  \<open>r\<close> can match at the state \<open>st\<close> (position, rest of the input, captures), in the order
  in which the backtracking matcher of the language tries them, so that the head of the list
  is the match the language finds. An iteration of a star that consumes nothing is rejected,
  as in the language.
\<close>

datatype regex =
    Eps
  | Cls "nat \<Rightarrow> bool"
  | Bol
  | Eol
  | Seq regex regex
  | Alt regex regex
  | Star regex
  | LazyStar regex
  | Group nat regex
  | Look regex

type_synonym captures = "nat \<Rightarrow> jstring option"
type_synonym mstate = "nat \<times> jstring \<times> captures"

fun rmatch :: "regex \<Rightarrow> mstate \<Rightarrow> mstate list" where
  "rmatch Eps st = [st]"
| "rmatch (Cls p) (i, [], cs) = []"
| "rmatch (Cls p) (i, x # xs, cs) = (if p x then [(Suc i, xs, cs)] else [])"
| "rmatch Bol (i, xs, cs) = (if i = 0 then [(i, xs, cs)] else [])"
| "rmatch Eol (i, xs, cs) = (if xs = [] then [(i, xs, cs)] else [])"
| "rmatch (Seq a b) st = concat (map (rmatch b) (rmatch a st))"
| "rmatch (Alt a b) st = rmatch a st @ rmatch b st"
| "rmatch (Star a) st =
     concat (map (\<lambda>st'. if length (fst (snd st')) < length (fst (snd st))
                          then rmatch (Star a) st' else [])
                 (rmatch a st)) @ [st]"
| "rmatch (LazyStar a) st =
     st # concat (map (\<lambda>st'. if length (fst (snd st')) < length (fst (snd st))
                               then rmatch (LazyStar a) st' else [])
                      (rmatch a st))"
| "rmatch (Group n a) (i, xs, cs) =
     map (\<lambda>(j, ys, cs'). (j, ys, cs'(n \<mapsto> take (j - i) xs))) (rmatch a (i, xs, cs))"
| "rmatch (Look a) (i, xs, cs) =
     (case rmatch a (i, xs, cs) of [] \<Rightarrow> [] | (j, ys, cs') # _ \<Rightarrow> [(i, xs, cs')])"


definition Chr :: "nat \<Rightarrow> regex" where
  "Chr c = Cls (\<lambda>x. x = c)"

definition ascii_upper :: "nat \<Rightarrow> nat" where
  "ascii_upper c = (if 97 \<le> c \<and> c \<le> 122 then c - 32 else c)"

definition ChrI :: "nat \<Rightarrow> regex" where
  \<comment> \<open>an ASCII character of a pattern with the flag \<open>i\<close>: a code unit from 128 on never
      folds to an ASCII one\<close>
  "ChrI c = Cls (\<lambda>x. x < 128 \<and> ascii_upper x = ascii_upper c)"

fun seqs :: "regex list \<Rightarrow> regex" where
  "seqs [] = Eps"
| "seqs [r] = r"
| "seqs (r # rs) = Seq r (seqs rs)"

definition lit :: "jstring \<Rightarrow> regex" where
  "lit s = seqs (map Chr s)"

definition litI :: "jstring \<Rightarrow> regex" where
  "litI s = seqs (map ChrI s)"

definition Plus :: "regex \<Rightarrow> regex" where
  "Plus a = Seq a (Star a)"

definition LazyPlus :: "regex \<Rightarrow> regex" where
  "LazyPlus a = Seq a (LazyStar a)"

definition Opt :: "regex \<Rightarrow> regex" where
  "Opt a = Alt a Eps"

fun upto_times :: "nat \<Rightarrow> regex \<Rightarrow> regex" where
  \<comment> \<open>\<open>a{0,n}\<close>, greedy\<close>
  "upto_times 0 a = Eps"
| "upto_times (Suc n) a = Opt (Seq a (upto_times n a))"

fun times :: "nat \<Rightarrow> regex \<Rightarrow> regex" where
  \<comment> \<open>\<open>a{n}\<close>\<close>
  "times 0 a = Eps"
| "times (Suc n) a = Seq a (times n a)"

definition Dot :: regex where
  "Dot = Cls (\<lambda>c. \<not> isLineTerminator c)"

definition Ws :: regex where
  "Ws = Cls isWhiteSpace"

definition isDigit :: "nat \<Rightarrow> bool" where
  "isDigit c \<longleftrightarrow> 48 \<le> c \<and> c \<le> 57"

definition isHexDigit :: "nat \<Rightarrow> bool" where
  "isHexDigit c \<longleftrightarrow> (48 \<le> c \<and> c \<le> 57) \<or> (97 \<le> c \<and> c \<le> 102) \<or> (65 \<le> c \<and> c \<le> 70)"

text \<open>
  \<open>s.match(r)\<close> and \<open>r.test(s)\<close> of a pattern without the flag \<open>g\<close>: the first position
  from the left at which the pattern matches, and there the first match in the order of
  the matcher. Capture 0 is the whole match.
\<close>

fun search_from :: "regex \<Rightarrow> nat \<Rightarrow> jstring \<Rightarrow> captures option" where
  "search_from r i [] =
     (case rmatch (Group 0 r) (i, [], Map.empty) of [] \<Rightarrow> None | (j, ys, cs) # _ \<Rightarrow> Some cs)"
| "search_from r i (x # xs) =
     (case rmatch (Group 0 r) (i, x # xs, Map.empty) of
        [] \<Rightarrow> search_from r (Suc i) xs
      | (j, ys, cs) # _ \<Rightarrow> Some cs)"

definition match :: "jstring \<Rightarrow> regex \<Rightarrow> captures option" where
  "match s r = search_from r 0 s"

definition test :: "regex \<Rightarrow> jstring \<Rightarrow> bool" where
  "test r s \<longleftrightarrow> match s r \<noteq> None"

text \<open>
  \<open>s.replace(r, f)\<close> of a pattern with the flag \<open>g\<close>: every match from the left, the
  next search starting where the last match ended; after an empty match the next code unit
  is copied and the search goes on behind it.
\<close>

function replace_all :: "regex \<Rightarrow> (captures \<Rightarrow> jstring) \<Rightarrow> nat \<Rightarrow> jstring \<Rightarrow> jstring" where
  "replace_all r f i xs =
     (case rmatch (Group 0 r) (i, xs, Map.empty) of
        [] \<Rightarrow> (case xs of [] \<Rightarrow> [] | x # xs' \<Rightarrow> x # replace_all r f (Suc i) xs')
      | (j, ys, cs) # _ \<Rightarrow>
          if length ys < length xs then f cs @ replace_all r f j ys
          else f cs @ (case xs of [] \<Rightarrow> [] | x # xs' \<Rightarrow> x # replace_all r f (Suc i) xs'))"
  by pat_completeness auto
termination
  by (relation "measure (\<lambda>(r, f, i, xs). length xs)") auto

definition replace :: "jstring \<Rightarrow> regex \<Rightarrow> (captures \<Rightarrow> jstring) \<Rightarrow> jstring" where
  "replace s r f = replace_all r f 0 s"

definition group :: "captures \<Rightarrow> nat \<Rightarrow> jstring" where
  \<comment> \<open>the text of a capture, empty for a capture that is not set: the source tests both
      alike, as false\<close>
  "group cs n = (case cs n of None \<Rightarrow> [] | Some s \<Rightarrow> s)"

section \<open>Numbers read from digits\<close>

text \<open>
  \<open>Number.parseInt\<close> gives the double nearest to the integer the digits denote (ties to
  even), and Infinity from \<open>2 ^ 1024\<close> on. \<open>toDouble n\<close> is that double as an integer, or
  \<open>None\<close> for Infinity; up to \<open>2 ^ 53\<close> it is \<open>n\<close> itself.
\<close>

function bit_length :: "nat \<Rightarrow> nat" where
  "bit_length n = (if n = 0 then 0 else Suc (bit_length (n div 2)))"
  by pat_completeness auto
termination
  by (relation "measure id") auto

definition toDouble :: "nat \<Rightarrow> nat option" where
  "toDouble n =
     (let k = bit_length n in
      if k \<le> 53 then Some n
      else
        let e = k - 53; q = n div 2 ^ e; r = n mod 2 ^ e; half = 2 ^ (e - 1);
            q' = (if half < r \<or> (r = half \<and> odd q) then q + 1 else q);
            m = q' * 2 ^ e
        in if 2 ^ 1024 \<le> m then None else Some m)"

definition digitValue :: "nat \<Rightarrow> nat" where
  "digitValue c =
     (if 48 \<le> c \<and> c \<le> 57 then c - 48
      else if 97 \<le> c \<and> c \<le> 122 then c - 87
      else c - 55)"

definition digitsValue :: "nat \<Rightarrow> jstring \<Rightarrow> nat" where
  "digitsValue radix ds = foldl (\<lambda>a c. a * radix + digitValue c) 0 ds"

definition fromCharCode :: "nat option \<Rightarrow> nat" where
  \<comment> \<open>\<open>String.fromCharCode\<close> of a non-negative integral double or Infinity: modulo \<open>2 ^ 16\<close>,
      Infinity gives 0\<close>
  "fromCharCode d = (case d of None \<Rightarrow> 0 | Some m \<Rightarrow> m mod 65536)"

section \<open>Text normalizer\<close>

definition numericEntity :: "nat \<Rightarrow> captures \<Rightarrow> jstring" where
  \<comment> \<open>\<open>String.fromCharCode(Number.parseInt(digits, radix))\<close>, the digits in capture 1\<close>
  "numericEntity radix cs = [fromCharCode (toDouble (digitsValue radix (group cs 1)))]"

definition hexEntityRe :: regex where
  "hexEntityRe = seqs [Chr 38, Chr 35, Chr 120, Group 1 (Plus (Cls isHexDigit)), Chr 59]"

definition decEntityRe :: regex where
  "decEntityRe = seqs [Chr 38, Chr 35, Group 1 (Plus (Cls isDigit)), Chr 59]"

text \<open>The chain of replacements, the first one innermost: the entities nbsp, lt, gt, amp,
  quot and number 39, in any case of the letters, then the hexadecimal and the decimal
  entities.\<close>

definition decodeEntities :: "jstring \<Rightarrow> jstring" where
  "decodeEntities text =
     replace (replace (replace (replace (replace (replace (replace (replace text
       (litI [38, 110, 98, 115, 112, 59]) (\<lambda>_. [32]))
       (litI [38, 108, 116, 59]) (\<lambda>_. [60]))
       (litI [38, 103, 116, 59]) (\<lambda>_. [62]))
       (litI [38, 97, 109, 112, 59]) (\<lambda>_. [38]))
       (litI [38, 113, 117, 111, 116, 59]) (\<lambda>_. [34]))
       (litI [38, 35, 51, 57, 59]) (\<lambda>_. [39]))
       hexEntityRe (numericEntity 16))
       decEntityRe (numericEntity 10)"

definition normalizeText :: "jstring \<Rightarrow> jstring" where
  "normalizeText text =
     replace (replace (replace (decodeEntities text)
       (lit [13, 10]) (\<lambda>_. [10]))
       (Chr 13) (\<lambda>_. [10]))
       (Chr 160) (\<lambda>_. [32])"

section \<open>Splitting at a pattern\<close>

text \<open>
  \<open>s.split(r)\<close>: the input is cut at every match of the pattern, tried at each position
  from the left; a match that is empty at the start of the current piece cuts nothing. The
  patterns of the program have no captures, which \<open>split\<close> would add to the pieces.
\<close>

function split_loop :: "regex \<Rightarrow> nat \<Rightarrow> jstring \<Rightarrow> jstring \<Rightarrow> jstring list" where
  "split_loop r i cur [] = [cur]"
| "split_loop r i cur (x # xs) =
     (case rmatch r (i, x # xs, Map.empty) of
        [] \<Rightarrow> split_loop r (Suc i) (cur @ [x]) xs
      | (j, ys, cs) # _ \<Rightarrow>
          if length ys < length (x # xs) then cur # split_loop r j [] ys
          else if cur = [] then split_loop r (Suc i) [x] xs
          else cur # split_loop r (Suc i) [x] xs)"
  by pat_completeness auto
termination
  by (relation "measure (\<lambda>(r, i, cur, xs). length xs)") auto

definition split :: "jstring \<Rightarrow> regex \<Rightarrow> jstring list" where
  "split s r =
     (if s = [] then (if rmatch r (0, [], Map.empty) = [] then [[]] else [])
      else split_loop r 0 [] s)"

section \<open>Track extraction engine\<close>

text \<open>The separators of a list of names: U+3001, comma, U+FF0C, semicolon, slash, bar.\<close>

definition isNameSeparator :: "nat \<Rightarrow> bool" where
  "isNameSeparator c \<longleftrightarrow> c = 12289 \<or> c = 44 \<or> c = 65292 \<or> c = 59 \<or> c = 47 \<or> c = 124"

definition splitArtists :: "jstring \<Rightarrow> jstring list" where
  "splitArtists v = filter (\<lambda>item. item \<noteq> []) (map trim (split v (Plus (Cls isNameSeparator))))"

definition albumLineRe :: regex where
  \<comment> \<open>U+300A, then the album (capture 1), U+300B, four digits (capture 2), the rest
      (capture 3)\<close>
  "albumLineRe =
     seqs [Bol, Chr 12298, Star Ws, Group 1 (LazyPlus Dot), Star Ws, Chr 12299, Star Ws,
           Opt (Group 2 (times 4 (Cls isDigit))), Star Ws, Opt (Group 3 (Plus Dot)), Eol]"

definition isOpenBracket :: "nat \<Rightarrow> bool" where
  \<comment> \<open>less-than, U+FF1C, U+3008, U+300A, U+3010, U+300C\<close>
  "isOpenBracket c \<longleftrightarrow>
     c = 60 \<or> c = 65308 \<or> c = 12296 \<or> c = 12298 \<or> c = 12304 \<or> c = 12300"

definition isCloseBracket :: "nat \<Rightarrow> bool" where
  \<comment> \<open>greater-than, U+FF1E, U+3009, U+300B, U+3011, U+300D\<close>
  "isCloseBracket c \<longleftrightarrow>
     c = 62 \<or> c = 65310 \<or> c = 12297 \<or> c = 12299 \<or> c = 12305 \<or> c = 12301"

definition titleLineRe :: regex where
  "titleLineRe =
     seqs [Bol, Group 1 (Seq (Cls isOpenBracket) (Star Ws)), Group 2 (LazyPlus Dot),
           Group 3 (Seq (Star Ws) (Cls isCloseBracket)), Group 4 (Star Dot), Eol]"

definition isColon :: "nat \<Rightarrow> bool" where
  \<comment> \<open>colon, U+FF1A\<close>
  "isColon c \<longleftrightarrow> c = 58 \<or> c = 65306"

definition lyricistRe :: regex where
  \<comment> \<open>the tag U+4F5C U+8BCD or U+4F5C U+8A5E, a colon, the names (capture 2: code units
      other than U+4F5C and U+66F2, as few as possible), and then, not consumed: the end, or
      white space and U+4F5C U+66F2, or U+3000, or the six characters of the entity nbsp\<close>
  "lyricistRe =
     seqs [Group 1 (Alt (lit [20316, 35789]) (lit [20316, 35422])), Cls isColon, Star Ws,
           Group 2 (LazyPlus (Cls (\<lambda>c. c \<noteq> 20316 \<and> c \<noteq> 26354))),
           Look (Alt Eol (Alt (Seq (Plus Ws) (lit [20316, 26354]))
                   (Alt (Chr 12288) (lit [38, 110, 98, 115, 112, 59]))))]"

definition composerRe :: regex where
  \<comment> \<open>the tag U+4F5C U+66F2, a colon, the names (capture 2) up to the end\<close>
  "composerRe =
     seqs [Group 1 (lit [20316, 26354]), Cls isColon, Star Ws, Group 2 (Plus Dot), Eol]"

definition isNakedTitleChar :: "nat \<Rightarrow> bool" where
  \<comment> \<open>U+4E00..U+9FA5, letters, digits, white space, U+00B7, U+30FB\<close>
  "isNakedTitleChar c \<longleftrightarrow>
     (19968 \<le> c \<and> c \<le> 40869) \<or> (65 \<le> c \<and> c \<le> 90) \<or> (97 \<le> c \<and> c \<le> 122) \<or>
     (48 \<le> c \<and> c \<le> 57) \<or> isWhiteSpace c \<or> c = 183 \<or> c = 12539"

definition nakedTitleRe :: regex where
  "nakedTitleRe =
     seqs [Bol, times 2 (Cls isNakedTitleChar), upto_times 10 (Cls isNakedTitleChar), Eol]"

definition creditOnlyRe :: regex where
  "creditOnlyRe =
     seqs [Bol, Group 1 (Alt (lit [20316, 35789]) (Alt (lit [20316, 35422]) (lit [20316, 26354]))),
           Star Ws, Cls isColon]"

record Draft =
  draft_title :: jstring
  draft_lyricists :: "jstring list"
  draft_composers :: "jstring list"
  draft_lines :: "jstring list"

record PackageTrack =
  track_title :: jstring
  track_album :: "jstring option"
  track_year :: "jstring option"
  track_lyricists :: "jstring list option"
  track_lyrics :: jstring

record PackageResult =
  schema_version :: nat
  pkg_artist :: jstring
  pkg_tracks :: "PackageTrack list"

definition looksLikeNakedTitle :: "jstring \<Rightarrow> bool" where
  "looksLikeNakedTitle line =
     (let compact = replace line (Plus Ws) (\<lambda>_. []) in
      if length compact < 2 \<or> 12 < length compact then False
      else if str_includes line [58] \<or> str_includes line [65306] then False
      else test nakedTitleRe line)"

definition applyCreditsFromLine :: "jstring \<Rightarrow> Draft \<Rightarrow> bool \<times> Draft" where
  "applyCreditsFromLine line draftRef =
     (let normalized = trim (replace line (Plus Ws) (\<lambda>_. [32]));
          (applied1, d1) =
             (case match normalized lyricistRe of
                None \<Rightarrow> (False, draftRef)
              | Some m \<Rightarrow>
                  if group m 2 \<noteq> []
                  then (True, draftRef\<lparr>draft_lyricists :=
                                draft_lyricists draftRef @ splitArtists (group m 2)\<rparr>)
                  else (False, draftRef))
      in (case match normalized composerRe of
            None \<Rightarrow> (applied1, d1)
          | Some m \<Rightarrow>
              if group m 2 \<noteq> []
              then (True, d1\<lparr>draft_composers := draft_composers d1 @ splitArtists (group m 2)\<rparr>)
              else (applied1, d1)))"

definition isCreditOnlyLine :: "jstring \<Rightarrow> bool" where
  "isCreditOnlyLine line = test creditOnlyRe (trim (replace line (Plus Ws) (\<lambda>_. [32])))"

text \<open>The variables of \<open>parseTextToPackage\<close> that its loops and closures update.\<close>

record ParseState =
  artist :: jstring
  album :: jstring
  year :: "jstring option"
  tracks :: "PackageTrack list"
  draft :: "Draft option"
  prevWasEmpty :: bool

text \<open>The three assignments made from a match of the album line, in both loops.\<close>

definition applyAlbumMatch :: "captures \<Rightarrow> ParseState \<Rightarrow> ParseState" where
  "applyAlbumMatch m st =
     (let st1 = (if trim (group m 1) \<noteq> [] then st\<lparr>album := trim (group m 1)\<rparr> else st);
          st2 = (if group m 2 \<noteq> [] then st1\<lparr>year := Some (group m 2)\<rparr> else st1)
      in if trim (group m 3) \<noteq> [] then st2\<lparr>artist := trim (group m 3)\<rparr> else st2)"

text \<open>The first loop: the first line that is not blank sets the context if it is an album
  line.\<close>

fun firstContext :: "jstring list \<Rightarrow> ParseState \<Rightarrow> ParseState" where
  "firstContext [] st = st"
| "firstContext (line # rest) st =
     (let trimmed = trim line in
      if trimmed = [] then firstContext rest st
      else (case match trimmed albumLineRe of
              None \<Rightarrow> st
            | Some m \<Rightarrow> applyAlbumMatch m st))"

definition flushDraft :: "ParseState \<Rightarrow> ParseState" where
  "flushDraft st =
     (case draft st of
        None \<Rightarrow> st
      | Some d \<Rightarrow>
          let hasLyrics = list_ex (\<lambda>line. 0 < length (trim line)) (draft_lines d) in
          if draft_title d = [] \<or> \<not> hasLyrics then st\<lparr>draft := None\<rparr>
          else st\<lparr>tracks := tracks st @
                     [\<lparr>track_title = draft_title d,
                       track_album = Some (album st),
                       track_year = year st,
                       track_lyricists =
                         (if draft_lyricists d \<noteq> [] then Some (draft_lyricists d) else None),
                       track_lyrics = trimEnd (join [10] (draft_lines d))\<rparr>],
                  draft := None\<rparr>)"

definition startDraft :: "jstring \<Rightarrow> ParseState \<Rightarrow> ParseState" where
  "startDraft t st =
     st\<lparr>draft := Some \<lparr>draft_title = t, draft_lyricists = [], draft_composers = [],
                         draft_lines = []\<rparr>\<rparr>"

text \<open>One round of the main loop.\<close>

definition parseLine :: "ParseState \<Rightarrow> jstring \<Rightarrow> ParseState" where
  "parseLine st line0 =
     (let line = trim line0 in
      if line = [] then
        st\<lparr>draft := map_option (\<lambda>d. d\<lparr>draft_lines := draft_lines d @ [[]]\<rparr>) (draft st),
           prevWasEmpty := True\<rparr>
      else
        case match line albumLineRe of
          Some albumMatch \<Rightarrow> (applyAlbumMatch albumMatch st)\<lparr>prevWasEmpty := False\<rparr>
        | None \<Rightarrow>
           (case match line titleLineRe of
              Some titleMatch \<Rightarrow>
                (let st1 = startDraft (trim (group titleMatch 2)) (flushDraft st);
                     rest = trim (group titleMatch 4)
                 in (case draft st1 of
                       Some d \<Rightarrow>
                         if rest \<noteq> []
                         then st1\<lparr>draft := Some (snd (applyCreditsFromLine rest d)),
                                  prevWasEmpty := False\<rparr>
                         else st1\<lparr>prevWasEmpty := False\<rparr>
                     | None \<Rightarrow> st1\<lparr>prevWasEmpty := False\<rparr>))
            | None \<Rightarrow>
                if prevWasEmpty st \<and> looksLikeNakedTitle line then
                  (startDraft (trim line) (flushDraft st))\<lparr>prevWasEmpty := False\<rparr>
                else
                  (case draft st of
                     None \<Rightarrow> st\<lparr>prevWasEmpty := False\<rparr>
                   | Some d \<Rightarrow>
                       let (creditApplied, d') = applyCreditsFromLine line d in
                       if creditApplied \<and> isCreditOnlyLine line
                       then st\<lparr>draft := Some d', prevWasEmpty := False\<rparr>
                       else st\<lparr>draft := Some (d'\<lparr>draft_lines := draft_lines d' @ [line]\<rparr>),
                               prevWasEmpty := False\<rparr>)))"

definition unknownArtist :: jstring where
  \<comment> \<open>U+672A U+77E5 U+827A U+4EBA\<close>
  "unknownArtist = [26410, 30693, 33402, 20154]"

definition unarchived :: jstring where
  \<comment> \<open>U+672A U+5F52 U+6863\<close>
  "unarchived = [26410, 24402, 26723]"

definition initialState :: "jstring option \<Rightarrow> ParseState" where
  "initialState defaultArtist =
     \<lparr>artist = (case defaultArtist of
                   None \<Rightarrow> unknownArtist
                 | Some a \<Rightarrow> if trim a \<noteq> [] then trim a else unknownArtist),
      album = unarchived, year = None, tracks = [], draft = None, prevWasEmpty = True\<rparr>"

definition parseTextToPackage :: "jstring \<Rightarrow> jstring option \<Rightarrow> PackageResult" where
  "parseTextToPackage text defaultArtist =
     (let raw = normalizeText text;
          lines = map trim (split_on 10 raw);
          st = flushDraft (foldl parseLine (firstContext lines (initialState defaultArtist)) lines)
      in \<lparr>schema_version = 1, pkg_artist = artist st, pkg_tracks = tracks st\<rparr>)"

text \<open>
  The fixture of the extraction engine, six lines: the album line (U+300A, the album
  U+56DE U+58F0 U+6863 U+6848, U+300B, 2024, a space, the artist U+6F14 U+793A U+827A U+4EBA),
  the title U+96FE U+706F U+4E4B U+5916, the credits (U+4F5C U+8BCD U+FF1A and the lyricist
  U+793A U+4F8B U+8BCD U+4F5C U+8005, a space, U+4F5C U+66F2 U+FF1A and the composer
  U+793A U+4F8B U+4F5C U+66F2 U+8005), the lyric line U+7B2C U+4E00 U+884C U+6B4C U+8BCD,
  an empty line, and the lyric line U+7B2C U+4E8C U+884C U+6B4C U+8BCD.
\<close>

definition canonicalFixture :: jstring where
  "canonicalFixture =
     [12298, 22238, 22768, 26723, 26696, 12299, 50, 48, 50, 52, 32, 28436, 31034, 33402, 20154, 10,
      38654, 28783, 20043, 22806, 10,
      20316, 35789, 65306, 31034, 20363, 35789, 20316, 32773, 32,
      20316, 26354, 65306, 31034, 20363, 20316, 26354, 32773, 10,
      31532, 19968, 34892, 27468, 35789, 10,
      10,
      31532, 20108, 34892, 27468, 35789]"

section \<open>Numbers\<close>

text \<open>
  A number of the program is a double: not a number, an infinity, or a finite value, kept
  as the rational it denotes (the negative zero is not told apart from zero). The text of
  a finite integer below \<open>10 ^ 21\<close> in magnitude is its decimal digits; the text of any other
  finite number (with a fraction or an exponent) is left to the parameter \<open>fmt\<close>.
\<close>

datatype jsnumber = NaN | PosInfinity | NegInfinity | Finite rat

definition isFinite :: "jsnumber \<Rightarrow> bool" where
  "isFinite n = (case n of Finite q \<Rightarrow> True | _ \<Rightarrow> False)"


function digitsOf :: "nat \<Rightarrow> nat \<Rightarrow> jstring" where
  \<comment> \<open>the digits of a number in a radix up to 36, lower case, most significant first\<close>
  "digitsOf radix n =
     (if radix < 2 \<or> n < radix then [if n < 10 then 48 + n else 87 + n]
      else digitsOf radix (n div radix) @
           [if n mod radix < 10 then 48 + n mod radix else 87 + n mod radix])"
  by pat_completeness auto
termination
  by (relation "measure (\<lambda>(radix, n). n)") auto

definition intToString :: "int \<Rightarrow> jstring" where
  "intToString i = (if i < 0 then 45 # digitsOf 10 (nat (- i)) else digitsOf 10 (nat i))"

definition numberToString :: "(rat \<Rightarrow> jstring) \<Rightarrow> jsnumber \<Rightarrow> jstring" where
  "numberToString fmt n =
     (case n of
        NaN \<Rightarrow> [78, 97, 78]
      | PosInfinity \<Rightarrow> [73, 110, 102, 105, 110, 105, 116, 121]
      | NegInfinity \<Rightarrow> [45, 73, 110, 102, 105, 110, 105, 116, 121]
      | Finite q \<Rightarrow>
          if q = of_int \<lfloor>q\<rfloor> \<and> \<bar>q\<bar> < 10 ^ 21 then intToString \<lfloor>q\<rfloor> else fmt q)"

text \<open>
  \<open>Number.parseInt(s, 10)\<close>: leading white space is skipped, then a sign, then the longest
  run of decimal digits is read; without a digit the result is not a number.
\<close>

definition parseInt10 :: "jstring \<Rightarrow> jsnumber" where
  "parseInt10 s =
     (let t = trimStart s;
          negative = (t \<noteq> [] \<and> hd t = 45);
          body = (if t \<noteq> [] \<and> (hd t = 45 \<or> hd t = 43) then tl t else t);
          ds = takeWhile isDigit body
      in if ds = [] then NaN
         else (case toDouble (digitsValue 10 ds) of
                 None \<Rightarrow> if negative then NegInfinity else PosInfinity
               | Some m \<Rightarrow> Finite (if negative then - of_nat m else of_nat m)))"

section \<open>Record validator and canonicalizer\<close>

text \<open>An untrusted value, as \<open>JSON.parse\<close> or a caller hands it over.\<close>

datatype jsvalue =
    Undefined
  | Null
  | Boolean bool
  | Number jsnumber
  | String jstring
  | Array "jsvalue list"
  | Object "(jstring \<times> jsvalue) list"

definition field :: "jsvalue \<Rightarrow> jstring \<Rightarrow> jsvalue" where
  \<comment> \<open>the property of an object, \<open>Undefined\<close> when it is missing\<close>
  "field v k =
     (case v of
        Object kvs \<Rightarrow> (case map_of kvs k of None \<Rightarrow> Undefined | Some x \<Rightarrow> x)
      | _ \<Rightarrow> Undefined)"

datatype error = ZodError

text \<open>The schemas; \<open>None\<close> is a value that the schema rejects.\<close>

definition zString :: "jsvalue \<Rightarrow> jstring option" where
  "zString v = (case v of String s \<Rightarrow> Some s | _ \<Rightarrow> None)"

definition zStringMin1 :: "jsvalue \<Rightarrow> jstring option" where
  "zStringMin1 v = (case v of String s \<Rightarrow> if 1 \<le> length s then Some s else None | _ \<Rightarrow> None)"

definition zOptional :: "(jsvalue \<Rightarrow> 'a option) \<Rightarrow> jsvalue \<Rightarrow> 'a option option" where
  "zOptional schema v = (case v of Undefined \<Rightarrow> Some None | _ \<Rightarrow> map_option Some (schema v))"

definition zStringOrNumber :: "jsvalue \<Rightarrow> (jstring + jsnumber) option" where
  \<comment> \<open>the number schema rejects the value that is not a number\<close>
  "zStringOrNumber v =
     (case v of
        String s \<Rightarrow> Some (Inl s)
      | Number n \<Rightarrow> if n = NaN then None else Some (Inr n)
      | _ \<Rightarrow> None)"

definition zStringOrStrings :: "jsvalue \<Rightarrow> (jstring + jstring list) option" where
  "zStringOrStrings v =
     (case v of
        String s \<Rightarrow> Some (Inl s)
      | Array xs \<Rightarrow> map_option Inr (those (map zString xs))
      | _ \<Rightarrow> None)"

record TrackInput =
  in_id :: "jstring option"
  in_title :: jstring
  in_album :: "jstring option"
  in_year :: "(jstring + jsnumber) option"
  in_lyricists :: "(jstring + jstring list) option"
  in_lyrics :: jstring

definition TrackInputSchema :: "jsvalue \<Rightarrow> TrackInput option" where
  \<comment> \<open>the keys id, title, album, year, lyricists, lyrics\<close>
  "TrackInputSchema v =
     (case v of
        Object kvs \<Rightarrow>
          (case (zOptional zString (field v [105, 100]),
                 zStringMin1 (field v [116, 105, 116, 108, 101]),
                 zOptional zString (field v [97, 108, 98, 117, 109]),
                 zOptional zStringOrNumber (field v [121, 101, 97, 114]),
                 zOptional zStringOrStrings (field v [108, 121, 114, 105, 99, 105, 115, 116, 115]),
                 zStringMin1 (field v [108, 121, 114, 105, 99, 115])) of
             (Some i, Some t, Some a, Some y, Some ls, Some l) \<Rightarrow>
               Some \<lparr>in_id = i, in_title = t, in_album = a, in_year = y, in_lyricists = ls,
                     in_lyrics = l\<rparr>
           | _ \<Rightarrow> None)
      | _ \<Rightarrow> None)"

record LyricsPackage =
  in_schema_version :: "jstring + jsnumber"
  in_artist :: jstring
  in_tracks :: "TrackInput list"

definition LyricsPackageSchema :: "jsvalue \<Rightarrow> LyricsPackage option" where
  \<comment> \<open>the keys schema_version, artist, tracks\<close>
  "LyricsPackageSchema v =
     (case v of
        Object kvs \<Rightarrow>
          (case (zStringOrNumber
                   (field v [115, 99, 104, 101, 109, 97, 95, 118, 101, 114, 115, 105, 111, 110]),
                 zStringMin1 (field v [97, 114, 116, 105, 115, 116]),
                 (case field v [116, 114, 97, 99, 107, 115] of
                    Array xs \<Rightarrow>
                      (case those (map TrackInputSchema xs) of
                         None \<Rightarrow> None
                       | Some ts \<Rightarrow> if 1 \<le> length ts then Some ts else None)
                  | _ \<Rightarrow> None)) of
             (Some sv, Some a, Some ts) \<Rightarrow>
               Some \<lparr>in_schema_version = sv, in_artist = a, in_tracks = ts\<rparr>
           | _ \<Rightarrow> None)
      | _ \<Rightarrow> None)"

record TrackRecord =
  tr_id :: jstring
  tr_title :: jstring
  tr_album :: jstring
  tr_year :: "jsnumber option"
  tr_yearText :: jstring
  tr_lyricists :: "jstring list"
  tr_lyrics :: jstring
  tr_artist :: jstring

record NormalizedPackage =
  schemaVersion :: jstring
  np_artist :: jstring
  np_tracks :: "TrackRecord list"

definition nonWordSplit :: regex where
  "nonWordSplit = Plus (Cls isNameSeparator)"

definition normalizeLyricists :: "(jstring + jstring list) option \<Rightarrow> jstring list" where
  "normalizeLyricists v =
     (case v of
        None \<Rightarrow> []
      | Some (Inl []) \<Rightarrow> []
      | Some (Inl s) \<Rightarrow> filter (\<lambda>item. item \<noteq> []) (map trim (split s nonWordSplit))
      | Some (Inr xs) \<Rightarrow>
          filter (\<lambda>item. item \<noteq> []) (map trim (split (join [32] xs) nonWordSplit)))"

definition unknownYear :: jstring where
  \<comment> \<open>U+672A U+77E5\<close>
  "unknownYear = [26410, 30693]"

definition normalizeYear ::
  "(rat \<Rightarrow> jstring) \<Rightarrow> (jstring + jsnumber) option \<Rightarrow> jsnumber option \<times> jstring" where
  "normalizeYear fmt v =
     (case v of
        None \<Rightarrow> (None, unknownYear)
      | Some (Inl []) \<Rightarrow> (None, unknownYear)
      | Some (Inl s) \<Rightarrow>
          (let parsed = parseInt10 s in
           if isFinite parsed then (Some parsed, numberToString fmt parsed) else (None, s))
      | Some (Inr n) \<Rightarrow>
          if isFinite n then (Some n, numberToString fmt n) else (None, numberToString fmt n))"

definition hashString :: "jstring \<Rightarrow> jstring" where
  \<comment> \<open>the hash is kept below \<open>2 ^ 32\<close> by the unsigned shift; its text is in radix 36\<close>
  "hashString v = digitsOf 36 (foldl (\<lambda>hash c. (hash * 31 + c) mod 2 ^ 32) 0 v)"

definition idBase :: "jstring \<Rightarrow> jstring \<Rightarrow> jstring \<Rightarrow> jstring \<Rightarrow> jstring" where
  \<comment> \<open>the constant \<open>base\<close> of \<open>makeId\<close>: the four texts joined by hyphens, every run of
      white space replaced by a hyphen\<close>
  "idBase a t al yt = replace (a @ [45] @ t @ [45] @ al @ [45] @ yt) (Plus Ws) (\<lambda>_. [45])"

definition makeId :: "jstring \<Rightarrow> jstring \<Rightarrow> jstring \<Rightarrow> jstring \<Rightarrow> jstring" where
  "makeId a t al yt = (let base = idBase a t al yt in base @ [45] @ hashString base)"

definition unknownLyricist :: jstring where
  \<comment> \<open>U+4F5A U+540D\<close>
  "unknownLyricist = [20314, 21517]"

definition normalizeTrack :: "(rat \<Rightarrow> jstring) \<Rightarrow> jstring \<Rightarrow> TrackInput \<Rightarrow> TrackRecord" where
  \<comment> \<open>the function mapped over the tracks, \<open>a\<close> the trimmed artist of the package\<close>
  "normalizeTrack fmt a track =
     (let t = trim (in_title track);
          al = (case in_album track of
                  None \<Rightarrow> unarchived
                | Some s \<Rightarrow> if s \<noteq> [] then trim s else unarchived);
          (y, yt) = normalizeYear fmt (in_year track);
          ls = normalizeLyricists (in_lyricists track);
          l = trim (in_lyrics track);
          i = (case in_id track of None \<Rightarrow> makeId a t al yt | Some given \<Rightarrow> given)
      in \<lparr>tr_id = i, tr_title = t, tr_album = al, tr_year = y, tr_yearText = yt,
          tr_lyricists = (if ls \<noteq> [] then ls else [unknownLyricist]),
          tr_lyrics = l, tr_artist = a\<rparr>)"

definition normalizeLyricsPackage ::
  "(rat \<Rightarrow> jstring) \<Rightarrow> jsvalue \<Rightarrow> error + NormalizedPackage" where
  "normalizeLyricsPackage fmt input =
     (case LyricsPackageSchema input of
        None \<Rightarrow> Inl ZodError
      | Some parsed \<Rightarrow>
          Inr \<lparr>schemaVersion =
                 (case in_schema_version parsed of
                    Inl s \<Rightarrow> s
                  | Inr n \<Rightarrow> numberToString fmt n),
               np_artist = trim (in_artist parsed),
               np_tracks = map (normalizeTrack fmt (trim (in_artist parsed))) (in_tracks parsed)\<rparr>)"

section \<open>Lexical statistics engine\<close>

text \<open>The stop words, two ideographs each, in the order of the source (two of them are
  listed twice).\<close>

definition stopWords :: "jstring list" where
  "stopWords =
     [
      [25105, 20204], [20320, 20204], [20182, 20204], [22905, 20204], [23427, 20204], [33258, 24049],
      [19968, 20010], [27809, 26377], [28982, 21518], [22240, 20026], [25152, 20197], [20294, 26159],
      [22914, 26524], [21482, 26159], [23601, 26159], [36824, 26159], [24050, 32463], [29616, 22312],
      [36807, 21435], [26410, 26469], [36825, 26679], [37027, 26679], [36825, 37324], [37027, 37324],
      [20160, 20040], [24590, 20040], [21487, 20197], [19981, 20250], [26159, 21542], [21487, 33021],
      [19981, 35201], [19981, 35201], [30495, 30340], [30495, 30340]]"

text \<open>The stop characters, in the order of the source: ideographs, punctuation, hyphen,
  underscore, space, line feed and tab.\<close>

definition stopChars :: "jstring list" where
  "stopChars =
     [
      [30340], [20102], [22312], [26159], [25105], [20320], [20182], [22905], [23427], [20063],
      [21644], [19982], [25110], [32780], [21834], [21734], [21527], [21602], [21543], [21568],
      [36825], [37027], [23601], [37117], [34987], [35753], [20026], [26377], [26080], [19981],
      [27809], [21487], [24456], [20877], [21448], [24182], [20294], [21364], [19988], [20063],
      [19982], [20854], [20043], [20046], [32773], [30691], [28937], [21705], [20110], [20197],
      [25152], [20035], [21017], [38750], [30342], [12289], [12290], [65292], [65281], [65311],
      [65307], [65306], [8220], [8221], [12298], [12299], [65288], [65289], [12304], [12305],
      [8212], [45], [95], [32], [10], [9]]"

definition cjkRe :: regex where
  \<comment> \<open>one code unit in U+4E00..U+9FA5\<close>
  "cjkRe = Cls (\<lambda>c. 19968 \<le> c \<and> c \<le> 40869)"

definition punctuationRe :: regex where
  \<comment> \<open>U+3002, U+FF0C, U+FF01, U+FF1F, U+FF1B, U+FF1A, U+3001, U+201C, U+201D, U+300A, U+300B,
      U+3010, U+3011, U+FF08, U+FF09, U+2014, U+2026, hyphen, underscore\<close>
  "punctuationRe =
     Cls (\<lambda>c. c \<in> set [12290, 65292, 65281, 65311, 65307, 65306, 12289, 8220, 8221, 12298,
                        12299, 12304, 12305, 65288, 65289, 8212, 8230, 45, 95])"

definition isValidChar :: "jstring \<Rightarrow> bool" where
  "isValidChar char = (if char \<in> set stopChars then False else test cjkRe char)"

definition isPunctuation :: "jstring \<Rightarrow> bool" where
  "isPunctuation v = test punctuationRe v"

definition hasCjk :: "jstring \<Rightarrow> bool" where
  "hasCjk v = test cjkRe v"

text \<open>
  The word segmenter of the platform is a parameter: \<open>None\<close> where the platform has none,
  otherwise the function from a text to its segments. \<open>keepToken\<close> is the body of the loop
  over the segments, with its tests in the order of the source.
\<close>

type_synonym segmenter = "(jstring \<Rightarrow> jstring list) option"

definition keepToken :: "bool \<Rightarrow> jstring \<Rightarrow> bool" where
  "keepToken includeSingle token =
     (if token = [] then False
      else if isPunctuation token then False
      else if \<not> hasCjk token then False
      else if \<not> includeSingle \<and> length token < 2 then False
      else if token \<in> set stopWords then False
      else if length token = 1 \<and> token \<in> set stopChars then False
      else True)"

definition segmentWords :: "segmenter \<Rightarrow> jstring \<Rightarrow> bool \<Rightarrow> jstring list" where
  "segmentWords seg text includeSingle =
     (case seg of
        None \<Rightarrow> []
      | Some segment \<Rightarrow> filter (keepToken includeSingle) (map trim (segment text)))"

text \<open>A \<open>Set\<close> built from a list, as the list of its elements in the order of insertion.\<close>

definition newSet :: "'a list \<Rightarrow> 'a list" where
  "newSet xs = foldl (\<lambda>s x. if x \<in> set s then s else s @ [x]) [] xs"

text \<open>The \<open>Map\<close> of the counts, as the list of its entries in the order of insertion.\<close>

type_synonym counts = "(jstring \<times> nat) list"

definition getCount :: "counts \<Rightarrow> jstring \<Rightarrow> nat" where
  \<comment> \<open>\<open>counts.get(token) ?? 0\<close>\<close>
  "getCount counts token = (case map_of counts token of None \<Rightarrow> 0 | Some c \<Rightarrow> c)"

fun setCount :: "counts \<Rightarrow> jstring \<Rightarrow> nat \<Rightarrow> counts" where
  \<comment> \<open>\<open>counts.set(token, c)\<close>: a new key goes to the end, a known key keeps its place\<close>
  "setCount [] token c = [(token, c)]"
| "setCount ((k, v) # rest) token c =
     (if k = token then (k, c) # rest else (k, v) # setCount rest token c)"

definition countToken :: "counts \<Rightarrow> jstring \<Rightarrow> counts" where
  "countToken counts token = setCount counts token (getCount counts token + 1)"

text \<open>\<open>Array.from(text)\<close>: the code points, a surrogate pair as one element.\<close>

fun codePoints :: "jstring \<Rightarrow> jstring list" where
  "codePoints (x # y # rest) =
     (if 55296 \<le> x \<and> x \<le> 56319 \<and> 56320 \<le> y \<and> y \<le> 57343 then [x, y] # codePoints rest
      else [x] # codePoints (y # rest))"
| "codePoints [x] = [[x]]"
| "codePoints [] = []"

text \<open>The loop over the adjacent pairs of characters.\<close>

fun countBigrams :: "counts \<Rightarrow> jstring list \<Rightarrow> counts" where
  "countBigrams counts (first # second # rest) =
     (if \<not> isValidChar first \<or> \<not> isValidChar second then countBigrams counts (second # rest)
      else countBigrams (countToken counts (first @ second)) (second # rest))"
| "countBigrams counts [x] = counts"
| "countBigrams counts [] = counts"

definition uniqueText :: "jstring \<Rightarrow> jstring" where
  \<comment> \<open>the lines of the lyrics, trimmed, without the empty ones and without repetitions,
      joined again\<close>
  "uniqueText lyrics =
     join [10] (newSet (filter (\<lambda>line. line \<noteq> []) (map trim (split_on 10 lyrics))))"

definition countTrack :: "segmenter \<Rightarrow> bool \<Rightarrow> counts \<Rightarrow> TrackRecord \<Rightarrow> counts" where
  \<comment> \<open>the function called for each track\<close>
  "countTrack seg includeSingle counts track =
     (let tokens = segmentWords seg (uniqueText (tr_lyrics track)) includeSingle in
      if tokens \<noteq> [] then foldl countToken counts tokens
      else countBigrams counts
             (codePoints (replace (uniqueText (tr_lyrics track)) (Plus Ws) (\<lambda>_. []))))"

record BigramToken =
  token :: jstring
  count :: nat

definition slice0 :: "'a list \<Rightarrow> int \<Rightarrow> 'a list" where
  \<comment> \<open>\<open>xs.slice(0, limit)\<close>: a negative limit counts from the end\<close>
  "slice0 xs limit =
     (if limit < 0 then take (nat (int (length xs) + limit)) xs else take (nat limit) xs)"

definition buildBigramStats ::
  "segmenter \<Rightarrow> TrackRecord list \<Rightarrow> int \<Rightarrow> bool \<Rightarrow> BigramToken list" where
  \<comment> \<open>the sort is stable and puts the larger count first\<close>
  "buildBigramStats seg trackList limit includeSingle =
     slice0
       (sort_key (\<lambda>e. - int (count e))
          (map (\<lambda>(t, c). \<lparr>token = t, count = c\<rparr>)
             (foldl (countTrack seg includeSingle) [] trackList)))
       limit"

section \<open>Snippet locator\<close>

text \<open>
  \<open>toLowerCase\<close> follows the case tables of Unicode and is a parameter, \<open>lower\<close>. The state
  of the scan is the set of the lines seen, the results, and the number of results per
  track id.
\<close>

record Snippet =
  snip_line :: jstring
  snip_title :: jstring

record ScanState =
  seen :: "jstring set"
  results :: "Snippet list"
  perTrackCount :: "jstring \<Rightarrow> nat option"

text \<open>The loop over the lines of one track; the flag tells that the function has
  returned from inside the loop.\<close>

fun scanLines ::
  "(jstring \<Rightarrow> jstring) \<Rightarrow> int \<Rightarrow> jstring \<Rightarrow> TrackRecord \<Rightarrow> jstring list \<Rightarrow> ScanState
     \<Rightarrow> bool \<times> ScanState" where
  "scanLines lower limit trimmed track [] st = (False, st)"
| "scanLines lower limit trimmed track (line # rest) st =
     (if limit \<le> int (length (results st)) then (True, st)
      else
        let normalized = trim line in
        if normalized = [] then scanLines lower limit trimmed track rest st
        else if \<not> str_includes (lower normalized) trimmed
          then scanLines lower limit trimmed track rest st
        else if normalized \<in> seen st then scanLines lower limit trimmed track rest st
        else
          let used = (case perTrackCount st (tr_id track) of None \<Rightarrow> 0 | Some n \<Rightarrow> n) in
          if 2 \<le> used then scanLines lower limit trimmed track rest st
          else scanLines lower limit trimmed track rest
                 (st\<lparr>seen := insert normalized (seen st),
                     results := results st @
                       [\<lparr>snip_line = normalized, snip_title = tr_title track\<rparr>],
                     perTrackCount := (perTrackCount st)(tr_id track \<mapsto> used + 1)\<rparr>))"

text \<open>The loop over the tracks, with the same flag; at either exit the function returns
  the results.\<close>

fun scanTracks ::
  "(jstring \<Rightarrow> jstring) \<Rightarrow> int \<Rightarrow> jstring \<Rightarrow> TrackRecord list \<Rightarrow> ScanState
     \<Rightarrow> bool \<times> ScanState" where
  "scanTracks lower limit trimmed [] st = (False, st)"
| "scanTracks lower limit trimmed (track # rest) st =
     (case scanLines lower limit trimmed track (split_on 10 (tr_lyrics track)) st of
        (True, st') \<Rightarrow> (True, st')
      | (False, st') \<Rightarrow> scanTracks lower limit trimmed rest st')"

definition extractFocusedSnippets ::
  "(jstring \<Rightarrow> jstring) \<Rightarrow> TrackRecord list \<Rightarrow> jstring \<Rightarrow> int \<Rightarrow> Snippet list" where
  "extractFocusedSnippets lower trackList term limit =
     (let trimmed = lower (trim term) in
      if trimmed = [] then []
      else results (snd (scanTracks lower limit trimmed trackList
                           \<lparr>seen = {}, results = [], perTrackCount = Map.empty\<rparr>)))"

text \<open>\<open>toLowerCase\<close> on the letters of ASCII, for texts without other cased letters.\<close>

definition lowerAscii :: "jstring \<Rightarrow> jstring" where
  "lowerAscii s = map (\<lambda>c. if 65 \<le> c \<and> c \<le> 90 then c + 32 else c) s"

section \<open>Notions and inputs of the statements\<close>

text \<open>A line supplies an artist when it is an album line whose third capture is not
  blank: the condition under which both loops assign the artist.\<close>

definition suppliesArtist :: "jstring \<Rightarrow> bool" where
  "suppliesArtist line =
     (case match (trim line) albumLineRe of None \<Rightarrow> False | Some m \<Rightarrow> trim (group m 3) \<noteq> [])"

text \<open>A collection of one track with the three lines \<open>ab\<close>, \<open>Ab c\<close> and \<open>xab\<close>.\<close>

definition snippetExample :: "TrackRecord list" where
  "snippetExample =
     [\<lparr>tr_id = [116, 49], tr_title = [84], tr_album = [], tr_year = None,
       tr_yearText = [], tr_lyricists = [],
       tr_lyrics = [97, 98, 10, 65, 98, 32, 99, 10, 120, 97, 98], tr_artist = []\<rparr>]"

text \<open>Two packages of one track each: the artist \<open>a-b\<close> with the title \<open>c\<close>, and the
  artist \<open>a\<close> with the title \<open>b-c\<close>; both with schema version 1 and the lyrics \<open>x\<close>.\<close>

definition packageAB_C :: jsvalue where
  "packageAB_C =
     Object [([115, 99, 104, 101, 109, 97, 95, 118, 101, 114, 115, 105, 111, 110], Number (Finite 1)),
             ([97, 114, 116, 105, 115, 116], String [97, 45, 98]),
             ([116, 114, 97, 99, 107, 115],
              Array [Object [([116, 105, 116, 108, 101], String [99]),
                             ([108, 121, 114, 105, 99, 115], String [120])]])]"

definition packageA_BC :: jsvalue where
  "packageA_BC =
     Object [([115, 99, 104, 101, 109, 97, 95, 118, 101, 114, 115, 105, 111, 110], Number (Finite 1)),
             ([97, 114, 116, 105, 115, 116], String [97]),
             ([116, 114, 97, 99, 107, 115],
              Array [Object [([116, 105, 116, 108, 101], String [98, 45, 99]),
                             ([108, 121, 114, 105, 99, 115], String [120])]])]"

text \<open>The tracks of the package that the validator returns, none when it fails.\<close>

definition normalizedTracks :: "(rat \<Rightarrow> jstring) \<Rightarrow> jsvalue \<Rightarrow> TrackRecord list" where
  "normalizedTracks fmt input =
     (case normalizeLyricsPackage fmt input of Inl e \<Rightarrow> [] | Inr p \<Rightarrow> np_tracks p)"

text \<open>The four fields from which an id is made.\<close>

definition quadruple :: "TrackRecord \<Rightarrow> jstring \<times> jstring \<times> jstring \<times> jstring" where
  "quadruple r = (tr_artist r, tr_title r, tr_album r, tr_yearText r)"

text \<open>Stands for the text of numbers that are not small integers where no such number
  occurs.\<close>

definition noFormat :: "rat \<Rightarrow> jstring" where
  "noFormat q = []"


section \<open>The lyricists as the specification words them\<close>






text \<open>Two packages of one track by the artist \<open>a\<close> with the title \<open>t\<close>: one whose lyrics
  are a single space, one whose lyrics are the empty string.\<close>

definition blankLyricsPackage :: jsvalue where
  "blankLyricsPackage =
     Object [([115, 99, 104, 101, 109, 97, 95, 118, 101, 114, 115, 105, 111, 110], Number (Finite 1)),
             ([97, 114, 116, 105, 115, 116], String [97]),
             ([116, 114, 97, 99, 107, 115],
              Array [Object [([116, 105, 116, 108, 101], String [116]),
                             ([108, 121, 114, 105, 99, 115], String [32])]])]"

definition emptyLyricsPackage :: jsvalue where
  "emptyLyricsPackage =
     Object [([115, 99, 104, 101, 109, 97, 95, 118, 101, 114, 115, 105, 111, 110], Number (Finite 1)),
             ([97, 114, 116, 105, 115, 116], String [97]),
             ([116, 114, 97, 99, 107, 115],
              Array [Object [([116, 105, 116, 108, 101], String [116]),
                             ([108, 121, 114, 105, 99, 115], String [])]])]"

text \<open>A track whose lyrics are the stop word U+81EA U+5DF1, and a segmenter that takes a
  text as one word, as a word segmenter does with this one.\<close>

definition stopWordTrack :: TrackRecord where
  "stopWordTrack =
     \<lparr>tr_id = [116, 49], tr_title = [84], tr_album = [], tr_year = None, tr_yearText = [],
      tr_lyricists = [], tr_lyrics = [33258, 24049], tr_artist = []\<rparr>"

definition oneWordSegmenter :: segmenter where
  "oneWordSegmenter = Some (\<lambda>text. [text])"

section \<open>Evaluation\<close>

text \<open>The equations of the functions with a measure are unfolded on demand only.\<close>

declare replace_all.simps [simp del]
declare split_loop.simps [simp del]
declare bit_length.simps [simp del]
declare digitsOf.simps [simp del]

lemma times_2: "times 2 a = Seq a (Seq a Eps)"
  by (simp add: eval_nat_numeral)

lemma upto_times_10:
  "upto_times 10 a =
     Opt (Seq a (Opt (Seq a (Opt (Seq a (Opt (Seq a (Opt (Seq a (Opt (Seq a (Opt (Seq a
       (Opt (Seq a (Opt (Seq a (Opt (Seq a Eps)))))))))))))))))))"
  by (simp add: eval_nat_numeral)

lemma times_4: "times 4 a = Seq a (Seq a (Seq a (Seq a Eps)))"
  by (simp add: eval_nat_numeral)

lemmas regex_defs =
  Chr_def ChrI_def lit_def litI_def Plus_def LazyPlus_def Opt_def Dot_def Ws_def
  isDigit_def isHexDigit_def isWhiteSpace_def isLineTerminator_def ascii_upper_def
  times_2 times_4 upto_times_10 group_def replace_def test_def match_def
  trim_def trimStart_def trimEnd_def replace_all.simps split_loop.simps

lemmas normalize_defs =
  normalizeText_def decodeEntities_def hexEntityRe_def decEntityRe_def

lemmas parse_defs =
  parseTextToPackage_def initialState_def unknownArtist_def unarchived_def parseLine_def
  startDraft_def flushDraft_def applyAlbumMatch_def isCreditOnlyLine_def
  applyCreditsFromLine_def looksLikeNakedTitle_def creditOnlyRe_def nakedTitleRe_def
  isNakedTitleChar_def composerRe_def lyricistRe_def isColon_def titleLineRe_def
  isCloseBracket_def isOpenBracket_def albumLineRe_def splitArtists_def isNameSeparator_def
  split_def Let_def

lemmas validator_defs =
  normalizedTracks_def normalizeLyricsPackage_def LyricsPackageSchema_def TrackInputSchema_def
  zString_def zStringMin1_def zOptional_def zStringOrNumber_def zStringOrStrings_def field_def
  normalizeTrack_def normalizeYear_def normalizeLyricists_def quadruple_def Let_def

section \<open>The extraction engine on its fixture\<close>

lemma fixture_lines:
  "map trim (split_on 10 (normalizeText canonicalFixture)) =
     [[12298, 22238, 22768, 26723, 26696, 12299, 50, 48, 50, 52, 32, 28436, 31034, 33402, 20154],
      [38654, 28783, 20043, 22806],
      [20316, 35789, 65306, 31034, 20363, 35789, 20316, 32773, 32,
       20316, 26354, 65306, 31034, 20363, 20316, 26354, 32773],
      [31532, 19968, 34892, 27468, 35789],
      [],
      [31532, 20108, 34892, 27468, 35789]]"
  unfolding canonicalFixture_def by (simp add: normalize_defs regex_defs)

lemma fixture_package:
  "parseTextToPackage canonicalFixture None =
     \<lparr>schema_version = 1, pkg_artist = [28436, 31034, 33402, 20154], pkg_tracks = []\<rparr>"
  unfolding canonicalFixture_def by (simp add: parse_defs normalize_defs regex_defs)

lemma fixture_context:
  "firstContext (map trim (split_on 10 (normalizeText canonicalFixture))) (initialState None) =
     \<lparr>artist = [28436, 31034, 33402, 20154], album = [22238, 22768, 26723, 26696],
      year = Some [50, 48, 50, 52], tracks = [], draft = None, prevWasEmpty = True\<rparr>"
  unfolding fixture_lines by (simp add: parse_defs regex_defs)

text \<open>
  C1, as stated, fails: on the fixture the extraction engine does not return exactly one
  raw track.
\<close>

theorem C1_fixture_counterexample:
  "length (pkg_tracks (parseTextToPackage canonicalFixture None)) \<noteq> 1"
  by (simp add: fixture_package)

text \<open>
  C1, amended: on the fixture the album line sets the context of the package to the album
  U+56DE U+58F0 U+6863 U+6848, the year 2024 and the artist U+6F14 U+793A U+827A U+4EBA, and the
  package returned has schema version 1, that artist and no raw track. The title line
  follows the album line with no blank line between them, so it is not taken as a bare
  title and the lines up to the blank line belong to no draft; the last line, behind the
  blank line, opens a draft that has no lyric line and is dropped at the end.
\<close>

theorem C1_fixture_amended:
  "album (firstContext (map trim (split_on 10 (normalizeText canonicalFixture)))
            (initialState None)) = [22238, 22768, 26723, 26696] \<and>
   year (firstContext (map trim (split_on 10 (normalizeText canonicalFixture)))
            (initialState None)) = Some [50, 48, 50, 52] \<and>
   artist (firstContext (map trim (split_on 10 (normalizeText canonicalFixture)))
            (initialState None)) = [28436, 31034, 33402, 20154] \<and>
   parseTextToPackage canonicalFixture None =
     \<lparr>schema_version = 1, pkg_artist = [28436, 31034, 33402, 20154], pkg_tracks = []\<rparr>"
  by (simp add: fixture_context fixture_package)

section \<open>The text normalizer\<close>

lemma replace_all_no_start:
  assumes nil: "\<And>i cs. rmatch r (i, [], cs) = []"
    and cons: "\<And>i x xs cs. \<not> p x \<Longrightarrow> rmatch r (i, x # xs, cs) = []"
    and none: "\<forall>x\<in>set xs. \<not> p x"
  shows "replace_all r f i xs = xs"
  using none
proof (induction xs arbitrary: i)
  case Nil
  show ?case by (subst replace_all.simps) (simp add: nil)
next
  case (Cons x xs)
  then have "\<not> p x" by simp
  then have "rmatch r (i, x # xs, Map.empty) = []" by (rule cons)
  then show ?case using Cons by (subst replace_all.simps) simp
qed

lemma seqs_Cons: "rs \<noteq> [] \<Longrightarrow> seqs (r # rs) = Seq r (seqs rs)"
  by (cases rs) simp_all

lemma replace_amp_first:
  assumes "38 \<notin> set s" and "\<And>x. q x \<Longrightarrow> x = 38"
  shows "replace s (Seq (Cls q) b) f = s"
  unfolding replace_def
proof (rule replace_all_no_start [where p = "\<lambda>x. x = 38"])
  show "\<And>i cs. rmatch (Seq (Cls q) b) (i, [], cs) = []" by simp
  show "\<And>i x xs cs. \<not> x = 38 \<Longrightarrow> rmatch (Seq (Cls q) b) (i, x # xs, cs) = []"
    using assms(2) by auto
  show "\<forall>x\<in>set s. \<not> x = 38" using assms(1) by auto
qed

lemma ChrI_38: "x < 128 \<and> ascii_upper x = ascii_upper 38 \<Longrightarrow> x = 38"
  by (auto simp: ascii_upper_def split: if_splits)

text \<open>Every pattern of \<open>decodeEntities\<close> starts with the ampersand, so a text without
  one is left as it is.\<close>

lemma decodeEntities_no_amp: "38 \<notin> set s \<Longrightarrow> decodeEntities s = s"
  by (simp add: decodeEntities_def litI_def ChrI_def Chr_def hexEntityRe_def decEntityRe_def
      replace_amp_first ChrI_38)

lemma replace_all_Cls:
  "replace_all (Cls p) (\<lambda>_. rep) i xs = concat (map (\<lambda>x. if p x then rep else [x]) xs)"
proof (induction xs arbitrary: i)
  case Nil
  show ?case by (subst replace_all.simps) simp
next
  case (Cons x xs)
  show ?case by (subst replace_all.simps) (simp add: Cons)
qed

lemma replace_Chr_set:
  "c \<notin> set rep \<Longrightarrow> c \<notin> set (replace s (Chr c) (\<lambda>_. rep))"
  by (auto simp: replace_def Chr_def replace_all_Cls split: if_splits)

lemma replace_Chr_keeps:
  "d \<notin> set s \<Longrightarrow> d \<notin> set rep \<Longrightarrow> d \<notin> set (replace s (Chr c) (\<lambda>_. rep))"
  by (auto simp: replace_def Chr_def replace_all_Cls split: if_splits)

lemma replace_Chr_id: "c \<notin> set s \<Longrightarrow> replace s (Chr c) f = s"
  unfolding replace_def Chr_def
  by (rule replace_all_no_start [where p = "\<lambda>x. x = c"]) auto

lemma replace_lit_id: "c \<notin> set s \<Longrightarrow> replace s (lit (c # d # ds)) f = s"
  unfolding replace_def lit_def Chr_def
  by (rule replace_all_no_start [where p = "\<lambda>x. x = c"]) (auto simp: seqs_Cons)

lemma normalizeText_no_cr: "13 \<notin> set (normalizeText x)"
  unfolding normalizeText_def by (intro replace_Chr_keeps replace_Chr_set) simp_all

lemma normalizeText_no_nbsp: "160 \<notin> set (normalizeText x)"
  unfolding normalizeText_def by (intro replace_Chr_set) simp_all

text \<open>
  C2, as stated, fails: the text of an ampersand entity followed by \<open>lt;\<close> is normalized to
  the text of the entity \<open>lt\<close>, which a second pass decodes to the less-than sign.
\<close>

theorem C2_idempotence_counterexample:
  "normalizeText (normalizeText [38, 97, 109, 112, 59, 108, 116, 59]) \<noteq>
   normalizeText [38, 97, 109, 112, 59, 108, 116, 59]"
  by (simp add: normalize_defs regex_defs)

text \<open>
  C2, amended: normalizing twice gives the same as normalizing once for every text whose
  normalized form has no ampersand left (in particular for every text without an
  ampersand); the line ends and the no-break spaces are always settled by the first pass.
\<close>

theorem C2_idempotence_amended:
  assumes "38 \<notin> set (normalizeText x)"
  shows "normalizeText (normalizeText x) = normalizeText x"
proof -
  let ?y = "normalizeText x"
  have "decodeEntities ?y = ?y" using assms by (rule decodeEntities_no_amp)
  moreover have "13 \<notin> set ?y" by (rule normalizeText_no_cr)
  moreover have "160 \<notin> set ?y" by (rule normalizeText_no_nbsp)
  ultimately show ?thesis
    by (subst (1) normalizeText_def) (simp add: replace_Chr_id replace_lit_id)
qed

theorem C2_idempotence_amended_witness:
  "38 \<notin> set (normalizeText [38, 108, 116, 59, 97]) \<and>
   normalizeText (normalizeText [38, 108, 116, 59, 97]) = normalizeText [38, 108, 116, 59, 97]"
proof -
  have h: "38 \<notin> set (normalizeText [38, 108, 116, 59, 97])"
    by (simp add: normalize_defs regex_defs)
  show ?thesis using h C2_idempotence_amended [OF h] by simp
qed

section \<open>The artist of an extracted package\<close>

lemma artist_flushDraft: "artist (flushDraft st) = artist st"
  by (simp add: flushDraft_def Let_def split: option.splits)

lemma artist_startDraft: "artist (startDraft t st) = artist st"
  by (simp add: startDraft_def)

lemma artist_applyAlbumMatch:
  "artist (applyAlbumMatch m st) =
     (if trim (group m 3) \<noteq> [] then trim (group m 3) else artist st)"
  by (simp add: applyAlbumMatch_def Let_def)

lemma artist_parseLine:
  "artist (parseLine st line0) =
     (case (if trim line0 = [] then None else match (trim line0) albumLineRe) of
        None \<Rightarrow> artist st
      | Some m \<Rightarrow> if trim (group m 3) \<noteq> [] then trim (group m 3) else artist st)"
  by (simp add: parseLine_def Let_def artist_flushDraft artist_startDraft artist_applyAlbumMatch
      split: option.splits prod.splits)

lemma artist_parseLine_nonempty: "artist st \<noteq> [] \<Longrightarrow> artist (parseLine st l) \<noteq> []"
  by (simp add: artist_parseLine split: option.splits if_splits)

lemma artist_parseLine_same: "\<not> suppliesArtist l \<Longrightarrow> artist (parseLine st l) = artist st"
  by (simp add: artist_parseLine suppliesArtist_def split: option.splits if_splits)

lemma artist_foldl_nonempty: "artist st \<noteq> [] \<Longrightarrow> artist (foldl parseLine st ls) \<noteq> []"
  by (induction ls arbitrary: st) (simp_all add: artist_parseLine_nonempty)

lemma artist_foldl_same:
  "\<forall>l\<in>set ls. \<not> suppliesArtist l \<Longrightarrow> artist (foldl parseLine st ls) = artist st"
  by (induction ls arbitrary: st) (simp_all add: artist_parseLine_same)

lemma artist_firstContext_nonempty: "artist st \<noteq> [] \<Longrightarrow> artist (firstContext ls st) \<noteq> []"
  by (induction ls) (simp_all add: Let_def artist_applyAlbumMatch split: option.splits)

lemma artist_firstContext_same:
  "\<forall>l\<in>set ls. \<not> suppliesArtist l \<Longrightarrow> artist (firstContext ls st) = artist st"
  by (induction ls)
     (auto simp: Let_def artist_applyAlbumMatch suppliesArtist_def split: option.splits)

lemma unknownArtist_nonempty: "unknownArtist \<noteq> []"
  by (simp add: unknownArtist_def)

lemma artist_initialState: "artist (initialState d) \<noteq> []"
  by (simp add: initialState_def unknownArtist_nonempty split: option.splits)

text \<open>
  C10: for every text, without the option of a default artist, the package returned by
  \<open>parseTextToPackage\<close> has schema version 1 and an artist that is not empty; when no line
  of the text supplies an artist, the artist is the sentinel U+672A U+77E5 U+827A U+4EBA. So
  the schemas of the validator for the artist and for the schema version accept them.
\<close>

theorem C10_package_artist:
  "schema_version (parseTextToPackage text None) = 1 \<and>
   pkg_artist (parseTextToPackage text None) \<noteq> [] \<and>
   ((\<forall>l\<in>set (map trim (split_on 10 (normalizeText text))). \<not> suppliesArtist l) \<longrightarrow>
      pkg_artist (parseTextToPackage text None) = unknownArtist) \<and>
   zStringMin1 (String (pkg_artist (parseTextToPackage text None))) =
     Some (pkg_artist (parseTextToPackage text None)) \<and>
   zStringOrNumber (Number (Finite (of_nat (schema_version (parseTextToPackage text None))))) =
     Some (Inr (Finite 1))"
proof -
  have a: "pkg_artist (parseTextToPackage text None) \<noteq> []"
    by (simp add: parseTextToPackage_def Let_def artist_flushDraft artist_foldl_nonempty
        artist_firstContext_nonempty artist_initialState)
  have v: "schema_version (parseTextToPackage text None) = 1"
    by (simp add: parseTextToPackage_def Let_def)
  have s: "(\<forall>l\<in>set (map trim (split_on 10 (normalizeText text))). \<not> suppliesArtist l) \<longrightarrow>
      pkg_artist (parseTextToPackage text None) = unknownArtist"
    by (simp add: parseTextToPackage_def Let_def artist_flushDraft artist_foldl_same
        artist_firstContext_same del: set_map)
       (simp add: initialState_def)
  have "zStringMin1 (String (pkg_artist (parseTextToPackage text None))) =
          Some (pkg_artist (parseTextToPackage text None))"
    using a by (cases "pkg_artist (parseTextToPackage text None)") (simp_all add: zStringMin1_def)
  moreover have "zStringOrNumber
       (Number (Finite (of_nat (schema_version (parseTextToPackage text None))))) =
     Some (Inr (Finite 1))"
    by (simp add: v zStringOrNumber_def)
  ultimately show ?thesis using a v s by blast
qed

theorem C10_package_artist_witness:
  "\<not> suppliesArtist [38654, 28783] \<and> \<not> suppliesArtist [97] \<and>
   schema_version (parseTextToPackage [38654, 28783, 10, 97] None) = 1 \<and>
   pkg_artist (parseTextToPackage [38654, 28783, 10, 97] None) \<noteq> [] \<and>
   pkg_artist (parseTextToPackage [38654, 28783, 10, 97] None) = unknownArtist"
proof -
  have l: "map trim (split_on 10 (normalizeText [38654, 28783, 10, 97])) = [[38654, 28783], [97]]"
    by (simp add: normalize_defs regex_defs)
  have a: "\<not> suppliesArtist [38654, 28783]" "\<not> suppliesArtist [97]"
    by (simp_all add: suppliesArtist_def albumLineRe_def regex_defs)
  have h: "\<forall>l\<in>set (map trim (split_on 10 (normalizeText [38654, 28783, 10, 97]))).
             \<not> suppliesArtist l"
    unfolding l using a by simp
  show ?thesis using a h C10_package_artist [of "[38654, 28783, 10, 97]"] by blast
qed

section \<open>Repeated lines in the statistics\<close>

lemma split_on_nonempty: "split_on c xs \<noteq> []"
  by (induction xs) (auto split: list.splits)

lemma split_on_append: "split_on c (a @ c # b) = split_on c a @ split_on c b"
proof (induction a)
  case Nil
  show ?case by simp
next
  case (Cons x a)
  show ?case
  proof (cases "x = c")
    case True
    then show ?thesis using Cons by simp
  next
    case False
    obtain p ps where "split_on c a = p # ps"
      using split_on_nonempty [of c a] by (cases "split_on c a") auto
    then show ?thesis using False Cons by simp
  qed
qed

lemma join_replicate_Suc:
  "join sep (replicate (Suc (Suc n)) x) = x @ sep @ join sep (replicate (Suc n) x)"
  by simp

lemma split_on_join_replicate:
  "split_on c (join [c] (replicate (Suc n) x)) = concat (replicate (Suc n) (split_on c x))"
proof (induction n)
  case 0
  show ?case by simp
next
  case (Suc n)
  have "split_on c (join [c] (replicate (Suc (Suc n)) x)) =
        split_on c (x @ c # join [c] (replicate (Suc n) x))"
    by simp
  also have "\<dots> = split_on c x @ split_on c (join [c] (replicate (Suc n) x))"
    by (rule split_on_append)
  finally show ?case using Suc by simp
qed

lemma set_newSet_step:
  "set (foldl (\<lambda>s x. if x \<in> set s then s else s @ [x]) s xs) = set s \<union> set xs"
  by (induction xs arbitrary: s) auto

lemma newSet_step_known:
  "set ys \<subseteq> set s \<Longrightarrow> foldl (\<lambda>s x. if x \<in> set s then s else s @ [x]) s ys = s"
  by (induction ys) auto

lemma newSet_append_known: "set ys \<subseteq> set xs \<Longrightarrow> newSet (xs @ ys) = newSet xs"
  by (simp add: newSet_def newSet_step_known set_newSet_step)

lemma newSet_replicate: "newSet (concat (replicate (Suc n) xs)) = newSet xs"
proof -
  have "set (concat (replicate n xs)) \<subseteq> set xs" by auto
  then show ?thesis by (simp add: newSet_append_known)
qed

lemma uniqueText_repeated:
  "uniqueText (join [10] (replicate (Suc n) line)) = uniqueText line"
proof -
  have "filter (\<lambda>l. l \<noteq> []) (map trim (concat (replicate (Suc n) (split_on 10 line)))) =
        concat (replicate (Suc n) (filter (\<lambda>l. l \<noteq> []) (map trim (split_on 10 line))))"
    by (simp only: map_concat filter_concat map_replicate)
  then show ?thesis
    unfolding uniqueText_def split_on_join_replicate by (simp only: newSet_replicate)
qed

lemma countTrack_repeated:
  "countTrack seg inc cs (t\<lparr>tr_lyrics := join [10] (replicate (Suc n) line)\<rparr>) =
   countTrack seg inc cs (t\<lparr>tr_lyrics := line\<rparr>)"
  by (simp add: countTrack_def Let_def uniqueText_repeated del: replicate.simps)


text \<open>For instance the line U+5929 U+7A7A ten times, counted without a segmenter, gives its
  one pair of characters the count 1.\<close>

lemma chorus_example:
  "buildBigramStats None
     [stopWordTrack\<lparr>tr_lyrics := join [10] (replicate 10 [22825, 31354])\<rparr>] 20 False =
   [\<lparr>token = [22825, 31354], count = 1\<rparr>]"
proof -
  have r: "replicate 10 [22825, 31354 :: nat] = replicate (Suc 9) [22825, 31354]" by simp
  have "countTrack None False []
          (stopWordTrack\<lparr>tr_lyrics := join [10] (replicate 10 [22825, 31354])\<rparr>) =
        countTrack None False [] (stopWordTrack\<lparr>tr_lyrics := [22825, 31354]\<rparr>)"
    unfolding r by (rule countTrack_repeated)
  also have "\<dots> = [([22825, 31354], 1)]"
    by (simp add: countTrack_def uniqueText_def newSet_def segmentWords_def isValidChar_def
        cjkRe_def countToken_def getCount_def stopChars_def regex_defs)
  finally show ?thesis by (simp add: buildBigramStats_def slice0_def)
qed

section \<open>The caps of the snippet locator\<close>

lemma dropWhile_id: "(xs \<noteq> [] \<Longrightarrow> \<not> P (hd xs)) \<Longrightarrow> dropWhile P xs = xs"
  by (cases xs) auto

lemma trimEnd_take: "\<exists>k. trimEnd s = take k s"
proof -
  have "dropWhile isWhiteSpace (rev s) = drop (length (takeWhile isWhiteSpace (rev s))) (rev s)"
    by (rule dropWhile_eq_drop)
  then show ?thesis by (auto simp: trimEnd_def drop_rev)
qed

lemma trim_idem: "trim (trim s) = trim s"
proof -
  let ?ys = "trimStart s"
  let ?t = "trimEnd ?ys"
  have ys: "?ys \<noteq> [] \<Longrightarrow> \<not> isWhiteSpace (hd ?ys)"
    unfolding trimStart_def by (rule hd_dropWhile)
  obtain k where k: "?t = take k ?ys" using trimEnd_take by blast
  have "?t \<noteq> [] \<Longrightarrow> \<not> isWhiteSpace (hd ?t)"
  proof -
    assume ne: "?t \<noteq> []"
    then have "?ys \<noteq> []" and "0 < k" using k by (auto intro: Nat.gr0I)
    then show ?thesis using ys k by (simp add: hd_take)
  qed
  then have start: "trimStart ?t = ?t" unfolding trimStart_def by (rule dropWhile_id)
  let ?z = "dropWhile isWhiteSpace (rev ?ys)"
  have "?z \<noteq> [] \<Longrightarrow> \<not> isWhiteSpace (hd ?z)" by (rule hd_dropWhile)
  then have "dropWhile isWhiteSpace ?z = ?z" by (rule dropWhile_id)
  then have "trimEnd ?t = ?t" by (simp add: trimEnd_def)
  then show ?thesis using start by (simp add: trim_def)
qed

lemma scanLines_props:
  "scanLines lower limit trimmed track ls st = (b, st') \<Longrightarrow>
   \<exists>new. results st' = results st @ new \<and>
     length new \<le> 2 - (case perTrackCount st (tr_id track) of None \<Rightarrow> 0 | Some n \<Rightarrow> n) \<and>
     (\<forall>r\<in>set new. snip_title r = tr_title track \<and>
        str_includes (lower (snip_line r)) trimmed \<and>
        snip_line r \<notin> seen st \<and> snip_line r \<in> seen st' \<and>
        trim (snip_line r) = snip_line r) \<and>
     distinct (map snip_line new) \<and>
     seen st \<subseteq> seen st' \<and>
     (int (length (results st)) \<le> limit \<longrightarrow> int (length (results st')) \<le> limit) \<and>
     (b \<longrightarrow> limit \<le> int (length (results st')))"
proof (induction ls arbitrary: st)
  case Nil
  then show ?case by auto
next
  case (Cons line ls)
  show ?case
  proof (cases "limit \<le> int (length (results st))")
    case True
    then show ?thesis using Cons.prems by auto
  next
    case False
    let ?n = "trim line"
    let ?used = "(case perTrackCount st (tr_id track) of None \<Rightarrow> 0 | Some n \<Rightarrow> n)"
    show ?thesis
    proof (cases "?n = [] \<or> \<not> str_includes (lower ?n) trimmed \<or> ?n \<in> seen st \<or> 2 \<le> ?used")
      case True
      then have "scanLines lower limit trimmed track ls st = (b, st')"
        using Cons.prems False by (auto simp: Let_def split: if_splits)
      then show ?thesis by (rule Cons.IH)
    next
      case skip: False
      let ?st1 = "st\<lparr>seen := insert ?n (seen st),
                     results := results st @ [\<lparr>snip_line = ?n, snip_title = tr_title track\<rparr>],
                     perTrackCount := (perTrackCount st)(tr_id track \<mapsto> ?used + 1)\<rparr>"
      have "scanLines lower limit trimmed track ls ?st1 = (b, st')"
        using Cons.prems False skip by (auto simp: Let_def split: if_splits)
      from Cons.IH [OF this] obtain new where new:
        "results st' = results ?st1 @ new"
        "length new \<le> 2 - (case perTrackCount ?st1 (tr_id track) of None \<Rightarrow> 0 | Some n \<Rightarrow> n)"
        "\<forall>r\<in>set new. snip_title r = tr_title track \<and>
           str_includes (lower (snip_line r)) trimmed \<and>
           snip_line r \<notin> seen ?st1 \<and> snip_line r \<in> seen st' \<and>
           trim (snip_line r) = snip_line r"
        "distinct (map snip_line new)"
        "seen ?st1 \<subseteq> seen st'"
        "int (length (results ?st1)) \<le> limit \<longrightarrow> int (length (results st')) \<le> limit"
        "b \<longrightarrow> limit \<le> int (length (results st'))"
        by blast
      let ?new = "\<lparr>snip_line = ?n, snip_title = tr_title track\<rparr> # new"
      have c1: "(case perTrackCount ?st1 (tr_id track) of None \<Rightarrow> 0 | Some n \<Rightarrow> n) = ?used + 1" by simp
      have "results st' = results st @ ?new" using new(1) by simp
      moreover have "length ?new \<le> 2 - ?used" using new(2) c1 skip by simp arith
      moreover have "\<forall>r\<in>set ?new. snip_title r = tr_title track \<and>
           str_includes (lower (snip_line r)) trimmed \<and>
           snip_line r \<notin> seen st \<and> snip_line r \<in> seen st' \<and>
           trim (snip_line r) = snip_line r"
        using new(3,5) skip by (auto simp: trim_idem)
      moreover have "distinct (map snip_line ?new)" using new(3,4) by auto
      moreover have "seen st \<subseteq> seen st'" using new(5) by auto
      moreover have "int (length (results st)) \<le> limit \<longrightarrow> int (length (results st')) \<le> limit"
        using new(6) False by simp
      ultimately show ?thesis using new(7) by blast
    qed
  qed
qed

lemma scanTracks_single:
  "scanTracks lower limit trimmed [t] st =
     scanLines lower limit trimmed t (split_on 10 (tr_lyrics t)) st"
  by (auto split: prod.splits bool.splits)

lemma scanTracks_append:
  "scanTracks lower limit trimmed (ts @ us) st =
     (case scanTracks lower limit trimmed ts st of
        (True, st') \<Rightarrow> (True, st')
      | (False, st') \<Rightarrow> scanTracks lower limit trimmed us st')"
  by (induction ts arbitrary: st) (auto split: prod.splits bool.splits)

lemma scanTracks_props:
  "scanTracks lower limit trimmed ts st = (b, st') \<Longrightarrow>
   \<exists>new. results st' = results st @ new \<and>
     (\<forall>r\<in>set new. str_includes (lower (snip_line r)) trimmed \<and>
        snip_line r \<notin> seen st \<and> snip_line r \<in> seen st' \<and>
        trim (snip_line r) = snip_line r) \<and>
     distinct (map snip_line new) \<and>
     seen st \<subseteq> seen st' \<and>
     (int (length (results st)) \<le> limit \<longrightarrow> int (length (results st')) \<le> limit) \<and>
     (b \<longrightarrow> limit \<le> int (length (results st')))"
proof (induction ts arbitrary: st)
  case Nil
  then show ?case by auto
next
  case (Cons t ts)
  obtain b1 st1 where l: "scanLines lower limit trimmed t (split_on 10 (tr_lyrics t)) st = (b1, st1)"
    by (cases "scanLines lower limit trimmed t (split_on 10 (tr_lyrics t)) st")
  from scanLines_props [OF l] obtain new1 where n1:
    "results st1 = results st @ new1"
    "\<forall>r\<in>set new1. str_includes (lower (snip_line r)) trimmed \<and>
        snip_line r \<notin> seen st \<and> snip_line r \<in> seen st1 \<and>
        trim (snip_line r) = snip_line r"
    "distinct (map snip_line new1)"
    "seen st \<subseteq> seen st1"
    "int (length (results st)) \<le> limit \<longrightarrow> int (length (results st1)) \<le> limit"
    "b1 \<longrightarrow> limit \<le> int (length (results st1))"
    by blast
  show ?case
  proof (cases b1)
    case True
    then have "b = True" "st' = st1" using Cons.prems l by auto
    then show ?thesis using n1 True by blast
  next
    case False
    then have "scanTracks lower limit trimmed ts st1 = (b, st')" using Cons.prems l by auto
    from Cons.IH [OF this] obtain new2 where n2:
      "results st' = results st1 @ new2"
      "\<forall>r\<in>set new2. str_includes (lower (snip_line r)) trimmed \<and>
          snip_line r \<notin> seen st1 \<and> snip_line r \<in> seen st' \<and>
          trim (snip_line r) = snip_line r"
      "distinct (map snip_line new2)"
      "seen st1 \<subseteq> seen st'"
      "int (length (results st1)) \<le> limit \<longrightarrow> int (length (results st')) \<le> limit"
      "b \<longrightarrow> limit \<le> int (length (results st'))"
      by blast
    have "results st' = results st @ (new1 @ new2)" using n1(1) n2(1) by simp
    moreover have "\<forall>r\<in>set (new1 @ new2). str_includes (lower (snip_line r)) trimmed \<and>
        snip_line r \<notin> seen st \<and> snip_line r \<in> seen st' \<and>
        trim (snip_line r) = snip_line r"
      using n1(2,4) n2(2,4) by auto
    moreover have "distinct (map snip_line (new1 @ new2))"
      using n1(2,3) n2(2,3) by auto
    moreover have "seen st \<subseteq> seen st'" using n1(4) n2(4) by auto
    ultimately show ?thesis using n1(5) n2(5,6) by blast
  qed
qed

lemma snippets_prefix:
  "\<exists>more. extractFocusedSnippets lower (ts @ us) term limit =
           extractFocusedSnippets lower ts term limit @ more"
proof (cases "lower (trim term) = []")
  case True
  then show ?thesis by (simp add: extractFocusedSnippets_def)
next
  case False
  let ?go = "scanTracks lower limit (lower (trim term))"
  let ?st0 = "\<lparr>seen = {}, results = [], perTrackCount = Map.empty\<rparr>"
  obtain b st1 where a: "?go ts ?st0 = (b, st1)" by (cases "?go ts ?st0")
  show ?thesis
  proof (cases b)
    case True
    then show ?thesis using a False
      by (simp add: extractFocusedSnippets_def scanTracks_append)
  next
    case no: False
    obtain b2 st2 where c: "?go us st1 = (b2, st2)" by (cases "?go us st1")
    from scanTracks_props [OF c] obtain new where "results st2 = results st1 @ new" by blast
    then show ?thesis using a c no False
      by (simp add: extractFocusedSnippets_def scanTracks_append)
  qed
qed

lemma snippets_step:
  "\<exists>new. extractFocusedSnippets lower (ts @ [t]) term limit =
           extractFocusedSnippets lower ts term limit @ new \<and>
         length new \<le> 2 \<and> (\<forall>r\<in>set new. snip_title r = tr_title t)"
proof (cases "lower (trim term) = []")
  case True
  then show ?thesis by (simp add: extractFocusedSnippets_def)
next
  case False
  let ?go = "scanTracks lower limit (lower (trim term))"
  let ?st0 = "\<lparr>seen = {}, results = [], perTrackCount = Map.empty\<rparr>"
  obtain b st1 where a: "?go ts ?st0 = (b, st1)" by (cases "?go ts ?st0")
  show ?thesis
  proof (cases b)
    case True
    then show ?thesis using a False
      by (simp add: extractFocusedSnippets_def scanTracks_append)
  next
    case no: False
    obtain b2 st2 where c:
      "scanLines lower limit (lower (trim term)) t (split_on 10 (tr_lyrics t)) st1 = (b2, st2)"
      by (cases "scanLines lower limit (lower (trim term)) t (split_on 10 (tr_lyrics t)) st1")
    from scanLines_props [OF c] obtain new where
      "results st2 = results st1 @ new"
      "length new \<le> 2 - (case perTrackCount st1 (tr_id t) of None \<Rightarrow> 0 | Some n \<Rightarrow> n)"
      "\<forall>r\<in>set new. snip_title r = tr_title t"
      by blast
    then have "results st2 = results st1 @ new \<and> length new \<le> 2 \<and>
               (\<forall>r\<in>set new. snip_title r = tr_title t)"
      by auto
    moreover have "?go (ts @ [t]) ?st0 = (b2, st2)"
      using a c no by (simp add: scanTracks_append scanTracks_single del: scanTracks.simps)
    ultimately show ?thesis using a False
      by (simp add: extractFocusedSnippets_def)
  qed
qed

lemma snippets_all:
  assumes "0 \<le> limit"
  shows "int (length (extractFocusedSnippets lower ts term limit)) \<le> limit \<and>
     (\<forall>r\<in>set (extractFocusedSnippets lower ts term limit).
        str_includes (lower (snip_line r)) (lower (trim term)) \<and>
        trim (snip_line r) = snip_line r) \<and>
     distinct (map snip_line (extractFocusedSnippets lower ts term limit))"
proof (cases "lower (trim term) = []")
  case True
  then show ?thesis using assms by (simp add: extractFocusedSnippets_def)
next
  case False
  let ?go = "scanTracks lower limit (lower (trim term))"
  let ?st0 = "\<lparr>seen = {}, results = [], perTrackCount = Map.empty\<rparr>"
  obtain b st1 where a: "?go ts ?st0 = (b, st1)" by (cases "?go ts ?st0")
  from scanTracks_props [OF a] obtain new where n:
     "results st1 = results ?st0 @ new"
     "\<forall>r\<in>set new. str_includes (lower (snip_line r)) (lower (trim term)) \<and>
        snip_line r \<notin> seen ?st0 \<and> snip_line r \<in> seen st1 \<and>
        trim (snip_line r) = snip_line r"
     "distinct (map snip_line new)"
     "int (length (results ?st0)) \<le> limit \<longrightarrow> int (length (results st1)) \<le> limit"
    by blast
  have "extractFocusedSnippets lower ts term limit = new"
    using False a n(1) by (simp add: extractFocusedSnippets_def)
  then show ?thesis using n assms by auto
qed

text \<open>
  C6: for every collection of tracks and every search term, with the limit 8, at most 8
  results are returned; the lower-case form of every returned line contains the
  lower-case trimmed term; no two results have the same trimmed line; and no track
  contributes more than two results: the results for the first \<open>n + 1\<close> tracks are the results
  for the first \<open>n\<close> tracks followed by at most two lines under the title of track \<open>n\<close>, and
  they stay at the front of the results for the whole collection. This holds whether or
  not the ids of the tracks are distinct.
\<close>

theorem C6_snippet_caps:
  "length (extractFocusedSnippets lower ts term 8) \<le> 8 \<and>
   (\<forall>r\<in>set (extractFocusedSnippets lower ts term 8).
      str_includes (lower (snip_line r)) (lower (trim term))) \<and>
   distinct (map (\<lambda>r. trim (snip_line r)) (extractFocusedSnippets lower ts term 8)) \<and>
   (\<forall>n<length ts.
      (\<exists>new. extractFocusedSnippets lower (take (Suc n) ts) term 8 =
              extractFocusedSnippets lower (take n ts) term 8 @ new \<and>
            length new \<le> 2 \<and> (\<forall>r\<in>set new. snip_title r = tr_title (ts ! n))) \<and>
      (\<exists>more. extractFocusedSnippets lower ts term 8 =
              extractFocusedSnippets lower (take (Suc n) ts) term 8 @ more))"
proof -
  let ?R = "extractFocusedSnippets lower ts term 8"
  have all: "int (length ?R) \<le> 8 \<and>
     (\<forall>r\<in>set ?R. str_includes (lower (snip_line r)) (lower (trim term)) \<and>
        trim (snip_line r) = snip_line r) \<and>
     distinct (map snip_line ?R)"
    by (rule snippets_all) simp
  have m: "map (\<lambda>r. trim (snip_line r)) ?R = map snip_line ?R"
    using all by (intro map_cong) auto
  have d: "distinct (map (\<lambda>r. trim (snip_line r)) ?R)" unfolding m using all by blast
  have step: "\<forall>n<length ts.
      (\<exists>new. extractFocusedSnippets lower (take (Suc n) ts) term 8 =
              extractFocusedSnippets lower (take n ts) term 8 @ new \<and>
            length new \<le> 2 \<and> (\<forall>r\<in>set new. snip_title r = tr_title (ts ! n))) \<and>
      (\<exists>more. ?R = extractFocusedSnippets lower (take (Suc n) ts) term 8 @ more)"
  proof (intro allI impI conjI)
    fix n assume n: "n < length ts"
    then have t: "take (Suc n) ts = take n ts @ [ts ! n]" by (rule take_Suc_conv_app_nth)
    show "\<exists>new. extractFocusedSnippets lower (take (Suc n) ts) term 8 =
              extractFocusedSnippets lower (take n ts) term 8 @ new \<and>
            length new \<le> 2 \<and> (\<forall>r\<in>set new. snip_title r = tr_title (ts ! n))"
      unfolding t by (rule snippets_step)
    have "ts = take (Suc n) ts @ drop (Suc n) ts" by simp
    then show "\<exists>more. ?R = extractFocusedSnippets lower (take (Suc n) ts) term 8 @ more"
      using snippets_prefix [of lower "take (Suc n) ts" "drop (Suc n) ts" "term" 8] by simp
  qed
  show ?thesis using all d step by simp
qed

theorem C6_snippet_caps_witness:
  "extractFocusedSnippets lowerAscii snippetExample [65, 32] 8 =
     [\<lparr>snip_line = [97, 98], snip_title = [84]\<rparr>,
      \<lparr>snip_line = [65, 98, 32, 99], snip_title = [84]\<rparr>] \<and>
   length (extractFocusedSnippets lowerAscii snippetExample [65, 32] 8) \<le> 8 \<and>
   str_includes (lowerAscii [65, 98, 32, 99]) (lowerAscii (trim [65, 32])) \<and>
   distinct (map (\<lambda>r. trim (snip_line r))
               (extractFocusedSnippets lowerAscii snippetExample [65, 32] 8)) \<and>
   (\<exists>new. extractFocusedSnippets lowerAscii (take (Suc 0) snippetExample) [65, 32] 8 =
           extractFocusedSnippets lowerAscii (take 0 snippetExample) [65, 32] 8 @ new \<and>
         length new \<le> 2)"
proof -
  have e: "extractFocusedSnippets lowerAscii snippetExample [65, 32] 8 =
     [\<lparr>snip_line = [97, 98], snip_title = [84]\<rparr>,
      \<lparr>snip_line = [65, 98, 32, 99], snip_title = [84]\<rparr>]"
    by (simp add: snippetExample_def extractFocusedSnippets_def lowerAscii_def trim_def
        trimStart_def trimEnd_def isWhiteSpace_def Let_def)
  have l: "0 < length snippetExample" by (simp add: snippetExample_def)
  have m: "\<lparr>snip_line = [65, 98, 32, 99], snip_title = [84]\<rparr> \<in>
             set (extractFocusedSnippets lowerAscii snippetExample [65, 32] 8)"
    unfolding e by simp
  have "str_includes (lowerAscii (snip_line \<lparr>snip_line = [65, 98, 32, 99], snip_title = [84]\<rparr>))
          (lowerAscii (trim [65, 32]))"
    using m C6_snippet_caps [of lowerAscii snippetExample "[65, 32]"] by blast
  then have i: "str_includes (lowerAscii [65, 98, 32, 99]) (lowerAscii (trim [65, 32]))"
    by simp
  show ?thesis
    using e i l C6_snippet_caps [of lowerAscii snippetExample "[65, 32]"] by blast
qed

section \<open>The identifier of a track\<close>

lemma digitsOf_ge_48: "\<forall>c\<in>set (digitsOf r n). 48 \<le> c"
proof (induction r n rule: digitsOf.induct)
  case (1 radix n)
  show ?case
  proof (cases "radix < 2 \<or> n < radix")
    case True
    then show ?thesis by (subst digitsOf.simps) auto
  next
    case False
    then show ?thesis using 1 by (subst digitsOf.simps) auto
  qed
qed

lemma hashString_no_hyphen: "45 \<notin> set (hashString v)"
  using digitsOf_ge_48 [of 36] by (fastforce simp: hashString_def)

lemma split_at_last:
  "xs @ c # h1 = ys @ c # h2 \<Longrightarrow> c \<notin> set h1 \<Longrightarrow> c \<notin> set h2 \<Longrightarrow> xs = ys"
proof (induction xs arbitrary: ys)
  case Nil
  then show ?case by (cases ys) auto
next
  case (Cons x xs)
  then show ?case by (cases ys) auto
qed

text \<open>
  C7, amended: without an id of its own, the id of a track is made from its canonical
  artist, title, album and year text, so equal quadruples give equal ids, in every call.
  Two ids made this way are equal exactly when the bases are equal: the four texts joined
  by hyphens, with every run of white space replaced by a hyphen. Distinct quadruples with
  the same base share their id.
\<close>

theorem C7_id_amended:
  "(let r = normalizeTrack fmt a (track\<lparr>in_id := None\<rparr>)
    in tr_id r = makeId (tr_artist r) (tr_title r) (tr_album r) (tr_yearText r)) \<and>
   (makeId a1 t1 al1 y1 = makeId a2 t2 al2 y2) =
     (idBase a1 t1 al1 y1 = idBase a2 t2 al2 y2)"
proof -
  have "idBase a1 t1 al1 y1 = idBase a2 t2 al2 y2"
    if "makeId a1 t1 al1 y1 = makeId a2 t2 al2 y2"
  proof -
    from that have "idBase a1 t1 al1 y1 @ 45 # hashString (idBase a1 t1 al1 y1) =
                    idBase a2 t2 al2 y2 @ 45 # hashString (idBase a2 t2 al2 y2)"
      by (simp add: makeId_def Let_def)
    then show ?thesis by (rule split_at_last) (rule hashString_no_hyphen)+
  qed
  moreover have "makeId a1 t1 al1 y1 = makeId a2 t2 al2 y2"
    if "idBase a1 t1 al1 y1 = idBase a2 t2 al2 y2"
    using that
    by (simp add: makeId_def Let_def)
  ultimately show ?thesis
    by (auto simp: normalizeTrack_def Let_def split: prod.splits)
qed

text \<open>
  C7, as stated, fails: the package of the artist \<open>a-b\<close> with the title \<open>c\<close> and the package of
  the artist \<open>a\<close> with the title \<open>b-c\<close> are both accepted and give tracks with the same id and
  distinct quadruples.
\<close>

theorem C7_id_counterexample:
  "map tr_id (normalizedTracks noFormat packageAB_C) =
     map tr_id (normalizedTracks noFormat packageA_BC) \<and>
   map quadruple (normalizedTracks noFormat packageAB_C) \<noteq>
     map quadruple (normalizedTracks noFormat packageA_BC)"
  by (simp add: packageAB_C_def packageA_BC_def validator_defs trim_def trimStart_def
      trimEnd_def isWhiteSpace_def makeId_def idBase_def)

section \<open>Year normalization\<close>










section \<open>The lyricists of a canonical track\<close>


















section \<open>The lyrics of a canonical track\<close>

lemma those_map_Some:
  "those (map f xs) = Some ys \<Longrightarrow>
     length ys = length xs \<and> (\<forall>i<length xs. f (xs ! i) = Some (ys ! i))"
proof (induction xs arbitrary: ys)
  case Nil
  then show ?case by simp
next
  case (Cons x xs)
  then obtain y ys' where y: "f x = Some y" "those (map f xs) = Some ys'" "ys = y # ys'"
    by (auto split: option.splits)
  then have "length ys' = length xs \<and> (\<forall>i<length xs. f (xs ! i) = Some (ys' ! i))"
    using Cons.IH by blast
  then show ?case using y by (auto simp: nth_Cons split: nat.splits)
qed

lemma those_map_None: "x \<in> set xs \<Longrightarrow> f x = None \<Longrightarrow> those (map f xs) = None"
  by (induction xs) (auto split: option.splits)

lemma TrackInputSchema_lyrics:
  "TrackInputSchema v = Some t \<Longrightarrow>
     field v [108, 121, 114, 105, 99, 115] = String (in_lyrics t) \<and> in_lyrics t \<noteq> []"
  by (auto simp: TrackInputSchema_def zStringMin1_def
      split: jsvalue.splits option.splits if_splits)

lemma TrackInputSchema_empty_lyrics:
  "field v [108, 121, 114, 105, 99, 115] = String [] \<Longrightarrow> TrackInputSchema v = None"
  by (auto simp: TrackInputSchema_def zStringMin1_def split: jsvalue.splits option.splits)

lemma LyricsPackageSchema_tracks:
  "LyricsPackageSchema input = Some parsed \<Longrightarrow>
     \<exists>raws. field input [116, 114, 97, 99, 107, 115] = Array raws \<and>
            those (map TrackInputSchema raws) = Some (in_tracks parsed)"
  by (auto simp: LyricsPackageSchema_def split: jsvalue.splits option.splits if_splits)

lemma LyricsPackageSchema_fails:
  "field input [116, 114, 97, 99, 107, 115] = Array raws \<Longrightarrow>
   those (map TrackInputSchema raws) = None \<Longrightarrow> LyricsPackageSchema input = None"
  by (auto simp: LyricsPackageSchema_def split: jsvalue.splits option.splits)

lemma lyrics_normalizeTrack: "tr_lyrics (normalizeTrack fmt a t) = trim (in_lyrics t)"
  by (simp add: normalizeTrack_def Let_def split: prod.splits)

lemma trimEnd_Nil_iff: "trimEnd s = [] \<longleftrightarrow> (\<forall>c\<in>set s. isWhiteSpace c)"
  by (auto simp: trimEnd_def dropWhile_eq_Nil_conv)

lemma trim_Nil_iff: "trim s = [] \<longleftrightarrow> (\<forall>c\<in>set s. isWhiteSpace c)"
proof
  assume "\<forall>c\<in>set s. isWhiteSpace c"
  then have "trimStart s = []" by (simp add: trimStart_def dropWhile_eq_Nil_conv)
  then show "trim s = []" by (simp add: trim_def trimEnd_def)
next
  assume e: "trim s = []"
  have "trimStart s = []"
  proof (rule ccontr)
    assume ne: "trimStart s \<noteq> []"
    then have "\<not> isWhiteSpace (hd (trimStart s))"
      unfolding trimStart_def by (rule hd_dropWhile)
    moreover have "hd (trimStart s) \<in> set (trimStart s)" using ne by simp
    ultimately show False using e by (auto simp: trim_def trimEnd_Nil_iff)
  qed
  then show "\<forall>c\<in>set s. isWhiteSpace c" by (simp add: trimStart_def dropWhile_eq_Nil_conv)
qed

text \<open>
  C3, amended: whenever the validator returns a package, every raw track has lyrics that
  are a string with at least one code unit, and the lyrics of the canonical track are
  that string trimmed: empty exactly when the raw lyrics are white space only. Whenever
  the lyrics of a raw track are the empty string, the validator fails with the schema
  error.
\<close>

theorem C3_lyrics_amended:
  "(normalizeLyricsPackage fmt input = Inr p \<longrightarrow>
      (\<exists>raws. field input [116, 114, 97, 99, 107, 115] = Array raws \<and>
         length (np_tracks p) = length raws \<and>
         (\<forall>i<length raws. \<exists>s. field (raws ! i) [108, 121, 114, 105, 99, 115] = String s \<and>
            s \<noteq> [] \<and> tr_lyrics (np_tracks p ! i) = trim s \<and>
            (tr_lyrics (np_tracks p ! i) = [] \<longleftrightarrow> (\<forall>c\<in>set s. isWhiteSpace c))))) \<and>
   (field input [116, 114, 97, 99, 107, 115] = Array raws' \<longrightarrow> raw \<in> set raws' \<longrightarrow>
      field raw [108, 121, 114, 105, 99, 115] = String [] \<longrightarrow>
      normalizeLyricsPackage fmt input = Inl ZodError)"
proof (intro conjI impI)
  assume ok: "normalizeLyricsPackage fmt input = Inr p"
  then obtain parsed where parsed: "LyricsPackageSchema input = Some parsed"
    and p: "np_tracks p = map (normalizeTrack fmt (trim (in_artist parsed))) (in_tracks parsed)"
    by (auto simp: normalizeLyricsPackage_def split: option.splits)
  from LyricsPackageSchema_tracks [OF parsed] obtain raws where
    raws: "field input [116, 114, 97, 99, 107, 115] = Array raws"
      "those (map TrackInputSchema raws) = Some (in_tracks parsed)"
    by blast
  from those_map_Some [OF raws(2)] have
    len: "length (in_tracks parsed) = length raws"
    and each: "\<forall>i<length raws. TrackInputSchema (raws ! i) = Some (in_tracks parsed ! i)"
    by auto
  have "\<forall>i<length raws. \<exists>s. field (raws ! i) [108, 121, 114, 105, 99, 115] = String s \<and>
            s \<noteq> [] \<and> tr_lyrics (np_tracks p ! i) = trim s \<and>
            (tr_lyrics (np_tracks p ! i) = [] \<longleftrightarrow> (\<forall>c\<in>set s. isWhiteSpace c))"
  proof (intro allI impI)
    fix i assume i: "i < length raws"
    then have t: "TrackInputSchema (raws ! i) = Some (in_tracks parsed ! i)" using each by simp
    have "tr_lyrics (np_tracks p ! i) = trim (in_lyrics (in_tracks parsed ! i))"
      using i len p by (simp add: lyrics_normalizeTrack)
    then show "\<exists>s. field (raws ! i) [108, 121, 114, 105, 99, 115] = String s \<and>
            s \<noteq> [] \<and> tr_lyrics (np_tracks p ! i) = trim s \<and>
            (tr_lyrics (np_tracks p ! i) = [] \<longleftrightarrow> (\<forall>c\<in>set s. isWhiteSpace c))"
      using TrackInputSchema_lyrics [OF t] by (simp add: trim_Nil_iff)
  qed
  then show "\<exists>raws. field input [116, 114, 97, 99, 107, 115] = Array raws \<and>
         length (np_tracks p) = length raws \<and>
         (\<forall>i<length raws. \<exists>s. field (raws ! i) [108, 121, 114, 105, 99, 115] = String s \<and>
            s \<noteq> [] \<and> tr_lyrics (np_tracks p ! i) = trim s \<and>
            (tr_lyrics (np_tracks p ! i) = [] \<longleftrightarrow> (\<forall>c\<in>set s. isWhiteSpace c)))"
    using raws(1) len p by simp
next
  assume "field input [116, 114, 97, 99, 107, 115] = Array raws'" "raw \<in> set raws'"
    "field raw [108, 121, 114, 105, 99, 115] = String []"
  then have "LyricsPackageSchema input = None"
    by (intro LyricsPackageSchema_fails those_map_None TrackInputSchema_empty_lyrics)
  then show "normalizeLyricsPackage fmt input = Inl ZodError"
    by (simp add: normalizeLyricsPackage_def)
qed

text \<open>
  C3, as stated, fails: the package whose only track has a single space as lyrics is
  accepted, and the lyrics of its canonical track are empty.
\<close>

theorem C3_lyrics_counterexample:
  "(case normalizeLyricsPackage noFormat blankLyricsPackage of
      Inl e \<Rightarrow> False
    | Inr p \<Rightarrow> map tr_lyrics (np_tracks p) = [[]])"
  by (simp add: blankLyricsPackage_def validator_defs trim_def trimStart_def trimEnd_def
      isWhiteSpace_def)

theorem C3_lyrics_amended_witness:
  "(\<exists>p. normalizeLyricsPackage noFormat packageAB_C = Inr p \<and>
        map tr_lyrics (np_tracks p) = [[120]]) \<and>
   normalizeLyricsPackage noFormat emptyLyricsPackage = Inl ZodError"
proof -
  have ok: "\<exists>p. normalizeLyricsPackage noFormat packageAB_C = Inr p \<and>
        map tr_lyrics (np_tracks p) = [[120]]"
    by (simp add: packageAB_C_def validator_defs trim_def trimStart_def trimEnd_def
        isWhiteSpace_def)
  have f:
    "field emptyLyricsPackage [116, 114, 97, 99, 107, 115] =
       Array [Object [([116, 105, 116, 108, 101], String [116]),
                      ([108, 121, 114, 105, 99, 115], String [])]]"
    "field (Object [([116, 105, 116, 108, 101], String [116]),
                    ([108, 121, 114, 105, 99, 115], String [])])
       [108, 121, 114, 105, 99, 115] = String []"
    by (simp_all add: emptyLyricsPackage_def field_def)
  have "normalizeLyricsPackage noFormat emptyLyricsPackage = Inl ZodError"
    using f
      C3_lyrics_amended [of noFormat emptyLyricsPackage undefined
        "[Object [([116, 105, 116, 108, 101], String [116]),
                  ([108, 121, 114, 105, 99, 115], String [])]]"
        "Object [([116, 105, 116, 108, 101], String [116]),
                 ([108, 121, 114, 105, 99, 115], String [])]"]
    by simp
  then show ?thesis using ok by simp
qed

section \<open>The tokens of the statistics\<close>

lemmas stats_defs =
  buildBigramStats_def countTrack_def uniqueText_def newSet_def segmentWords_def keepToken_def
  isPunctuation_def hasCjk_def isValidChar_def cjkRe_def punctuationRe_def countToken_def
  getCount_def slice0_def stopWords_def stopChars_def Let_def

text \<open>The result is no longer than a limit that is not negative, and its counts do not
  increase.\<close>

lemma stats_length:
  "0 \<le> limit \<Longrightarrow> int (length (buildBigramStats seg ts limit inc)) \<le> limit"
  by (simp add: buildBigramStats_def slice0_def)

lemma stats_sorted:
  "sorted (map (\<lambda>e. - int (count e)) (buildBigramStats seg ts limit inc))"
proof -
  have h: "sorted (map (\<lambda>e. - int (count e)) (take k (sort_key (\<lambda>e. - int (count e)) xs)))"
    for k and xs :: "BigramToken list"
    by (simp add: take_map [symmetric] sorted_wrt_take)
  show ?thesis by (simp add: buildBigramStats_def slice0_def h)
qed

text \<open>Without a segmenter the pairs of characters are counted, and the stop word is one
  of them.\<close>

lemma stop_word_no_segmenter:
  "buildBigramStats None [stopWordTrack] 20 False = [\<lparr>token = [33258, 24049], count = 1\<rparr>]"
  by (simp add: stopWordTrack_def stats_defs regex_defs)

text \<open>With a segmenter, whatever pieces it cuts the text into, no piece is kept as a
  token, so the pairs of characters are counted all the same.\<close>

lemma piece_of_concat: "s \<in> set xss \<Longrightarrow> \<exists>pre post. concat xss = pre @ s @ post"
proof (induction xss)
  case Nil
  then show ?case by simp
next
  case (Cons xs xss)
  show ?case
  proof (cases "s = xs")
    case True
    then have "concat (xs # xss) = [] @ s @ concat xss" by simp
    then show ?thesis by blast
  next
    case False
    then obtain pre post where "concat xss = pre @ s @ post" using Cons by auto
    then have "concat (xs # xss) = (xs @ pre) @ s @ post" by simp
    then show ?thesis by blast
  qed
qed

lemma piece_of_pair:
  assumes "pre @ s @ post = [a, b]"
  shows "s = [] \<or> s = [a] \<or> s = [b] \<or> s = [a, b]"
proof (cases pre)
  case Nil
  then show ?thesis using assms by (cases s; cases "tl s") (auto simp: append_eq_Cons_conv)
next
  case (Cons x pre')
  then show ?thesis using assms
    by (cases pre'; cases s) (auto simp: append_eq_Cons_conv)
qed

lemma keepToken_pieces:
  "keepToken False (trim []) = False"
  "keepToken False (trim [33258]) = False"
  "keepToken False (trim [24049]) = False"
  "keepToken False (trim [33258, 24049]) = False"
  by (simp_all add: keepToken_def isPunctuation_def hasCjk_def cjkRe_def punctuationRe_def
      stopWords_def regex_defs)

lemma uniqueText_stopWord: "uniqueText [33258, 24049] = [33258, 24049]"
  by (simp add: uniqueText_def newSet_def regex_defs)

lemma any_segmenter:
  assumes "concat (segment [33258, 24049]) = [33258, 24049]"
  shows "segmentWords (Some segment) (uniqueText (tr_lyrics stopWordTrack)) False = []"
proof -
  have "keepToken False (trim s) = False" if s: "s \<in> set (segment [33258, 24049])" for s
  proof -
    obtain pre post where "pre @ s @ post = [33258, 24049]"
      using piece_of_concat [of s "segment [33258, 24049]"] s assms by auto
    then have "s = [] \<or> s = [33258] \<or> s = [24049] \<or> s = [33258, 24049]"
      by (rule piece_of_pair)
    then show ?thesis using keepToken_pieces by auto
  qed
  then have "filter (keepToken False) (map trim (segment [33258, 24049])) = []"
    by (auto simp: filter_empty_conv)
  then show ?thesis
    by (simp add: segmentWords_def stopWordTrack_def uniqueText_stopWord)
qed

lemma stop_word_any_segmenter:
  assumes "concat (segment [33258, 24049]) = [33258, 24049]"
  shows "buildBigramStats (Some segment) [stopWordTrack] 20 False =
           [\<lparr>token = [33258, 24049], count = 1\<rparr>]"
proof -
  have "countTrack (Some segment) False [] stopWordTrack = countTrack None False [] stopWordTrack"
    using any_segmenter [of segment] assms by (simp add: countTrack_def Let_def segmentWords_def)
  then have "buildBigramStats (Some segment) [stopWordTrack] 20 False =
             buildBigramStats None [stopWordTrack] 20 False"
    by (simp add: buildBigramStats_def)
  then show ?thesis using stop_word_no_segmenter by simp
qed

text \<open>
  C4 fails in the program: for the track whose lyrics are the stop word U+81EA U+5DF1, with
  the limit 20 and without single characters, the statistics return that stop word with
  the count 1, with the segmenter that takes the text as one word and without a segmenter.
  The word is dropped by the filter of the segmented words, which leaves no token, and the
  pairs of characters counted instead are not filtered by the stop words.
\<close>

theorem C4_stop_word_returned:
  "buildBigramStats oneWordSegmenter [stopWordTrack] 20 False =
     [\<lparr>token = [33258, 24049], count = 1\<rparr>] \<and>
   buildBigramStats None [stopWordTrack] 20 False =
     [\<lparr>token = [33258, 24049], count = 1\<rparr>] \<and>
   [33258, 24049] \<in> set stopWords"
proof -
  have "concat ((\<lambda>text. [text]) [33258, 24049 :: nat]) = [33258, 24049]" by simp
  then have "buildBigramStats (Some (\<lambda>text. [text])) [stopWordTrack] 20 False =
               [\<lparr>token = [33258, 24049], count = 1\<rparr>]"
    by (rule stop_word_any_segmenter)
  moreover have "[33258, 24049] \<in> set stopWords" by (simp add: stopWords_def)
  ultimately show ?thesis
    using stop_word_no_segmenter by (simp add: oneWordSegmenter_def)
qed

end
